theory Spec2Isabelle
  imports Complex_Main "HOL-Library.AList" "HOL-Library.Char_ord" "HOL-Library.List_Lexorder"
begin

section \<open>Data model of the taxrunner server (server/index.js)\<close>

text \<open>
  The server keeps its whole state in process-wide JavaScript objects and Maps. A JavaScript
  Map and an object with string keys both iterate in insertion order, and assigning to a key
  that is present keeps the key's position: this is an association list updated with
  \<open>AList.update\<close>, read with \<open>map_of\<close> and shrunk with \<open>AList.delete\<close>.
  Stored scores are the results of \<open>Math.floor\<close>, so they are integers. A finite
  number that comes in with a request is the real number that the double is. Time is
  \<open>Date.now()\<close>, an integer number of milliseconds.
\<close>

type_synonym pid = string
type_synonym day = string
type_synonym conn = nat

record player =
  p_name :: string
  p_credits :: int
  p_flashShieldActive :: bool
  p_saveFromReset :: int
  p_isAdmin :: bool
  p_claimCode :: string

record entry =
  e_playerId :: pid
  e_name :: string
  e_score :: int

record run =
  r_playerId :: pid
  r_startedAt :: int

record winner =
  w_day :: day
  w_playerId :: pid
  w_name :: string
  w_score :: int
  w_prize :: real
  w_paid :: bool
  w_verified :: bool
  w_claimHash :: string
  w_claimCode :: string
  w_verifiedAt :: "string option"

type_synonym leaderboard = "(pid \<times> entry) list"
type_synonym grants = "(string \<times> int) list"

record state =
  players :: "(pid \<times> player) list"
  leaderboards :: "(day \<times> leaderboard) list"
  winners :: "(day \<times> winner) list"
  runs :: "(string \<times> run) list"
  sseClients :: "(pid \<times> conn) list"
  pendingGrants :: "(pid \<times> grants) list"
  currentDay :: day
  lastManualReset :: int
  MONEY_DROP_AMOUNT :: real

text \<open>
  The state at process start: the players loaded from the snapshot, an empty leaderboard for
  the current day, nothing else.
\<close>

definition init_state :: "day \<Rightarrow> (pid \<times> player) list \<Rightarrow> state" where
  "init_state d loaded =
     \<lparr>players = loaded, leaderboards = [(d, [])], winners = [], runs = [], sseClients = [],
      pendingGrants = [], currentDay = d, lastManualReset = 0, MONEY_DROP_AMOUNT = 100\<rparr>"

text \<open>Values of a JSON request body or response. \<open>JUndefined\<close> is a field that is absent.\<close>

datatype json =
    JUndefined | JNull | JBool bool
  | JNum real | JInf | JNegInf | JNaN
  | JStr string
  | JArr "json list"
  | JObj "(string \<times> json) list"

text \<open>The named events of the real-time channel, and a push: the recipient and the event.\<close>

datatype event =
    Flashbang pid int
  | ForceReset day bool
  | LeaderboardUpdated pid string int
  | YouWon day string string real
  | PurchaseCompleted string int

type_synonym push = "pid \<times> event"

definition sseSendTo :: "state \<Rightarrow> pid \<Rightarrow> event \<Rightarrow> push list" where
  "sseSendTo st playerId ev =
     (case map_of (sseClients st) playerId of None \<Rightarrow> [] | Some res \<Rightarrow> [(playerId, ev)])"

definition broadcast :: "state \<Rightarrow> event \<Rightarrow> push list" where
  "broadcast st ev = map (\<lambda>(playerId, res). (playerId, ev)) (sseClients st)"

section \<open>Pending grants\<close>

text \<open>\<open>pendingGrants.get(playerId) || {}\<close>: an object is always truthy.\<close>

definition grants_of :: "state \<Rightarrow> pid \<Rightarrow> grants" where
  "grants_of st playerId =
     (case map_of (pendingGrants st) playerId of None \<Rightarrow> [] | Some g \<Rightarrow> g)"

text \<open>\<open>cur[item] || 0\<close>: a missing count and a count of 0 both read as 0.\<close>

definition count_of :: "grants \<Rightarrow> string \<Rightarrow> int" where
  "count_of cur item = (case map_of cur item of None \<Rightarrow> 0 | Some c \<Rightarrow> c)"

definition queueGrant :: "state \<Rightarrow> pid \<Rightarrow> string \<Rightarrow> int \<Rightarrow> state \<times> push list" where
  "queueGrant st playerId item count =
     (let cur = grants_of st playerId;
          cur' = AList.update item (count_of cur item + count) cur
      in (st\<lparr>pendingGrants := AList.update playerId cur' (pendingGrants st)\<rparr>,
          sseSendTo st playerId (PurchaseCompleted item count)))"

text \<open>GET /claim-grants: the response body and the state after it.\<close>

definition claim_grants :: "state \<Rightarrow> pid \<Rightarrow> grants \<times> state" where
  "claim_grants st playerId =
     (grants_of st playerId,
      st\<lparr>pendingGrants := AList.delete playerId (pendingGrants st)\<rparr>)"

text \<open>A sequence of \<open>queueGrant\<close> calls, each (player, item, count), in order.\<close>

fun queue_all :: "state \<Rightarrow> (pid \<times> string \<times> int) list \<Rightarrow> state" where
  "queue_all st [] = st"
| "queue_all st ((playerId, item, count) # qs) =
     queue_all (fst (queueGrant st playerId item count)) qs"

text \<open>What the calls \<open>qs\<close> queued for one player and one item.\<close>

definition queued :: "(pid \<times> string \<times> int) list \<Rightarrow> pid \<Rightarrow> string \<Rightarrow> int list" where
  "queued qs playerId item =
     map (\<lambda>(q, i, c). c) (filter (\<lambda>(q, i, c). q = playerId \<and> i = item) qs)"

section \<open>JavaScript numbers\<close>

text \<open>
  A JavaScript number is an IEEE 754 double: a finite value, one of the two infinities, or
  \<open>NaN\<close>. The finite values are kept as real numbers. The sign of a zero is not kept: the
  handlers divide by positive constants only and compare with \<open><\<close>, and neither tells
  the two zeros apart.
\<close>

datatype jsnum = Fin real | PInf | NInf | NaN

text \<open>
  Rounding a real number to a double, to nearest with ties to even. \<open>binade x\<close> is the
  exponent of \<open>x\<close>, not below the one of the subnormal numbers; \<open>ulp x\<close> is the distance
  between the doubles around \<open>x\<close>, whose significands have 53 bits; a result that reaches
  \<open>2 ^ 1024\<close> is an infinity.
\<close>

definition binade :: "real \<Rightarrow> int" where
  "binade x = max \<lfloor>log 2 \<bar>x\<bar>\<rfloor> (- 1022)"

definition pow2 :: "int \<Rightarrow> real" where
  "pow2 k = (if 0 \<le> k then 2 ^ nat k else 1 / 2 ^ nat (- k))"

definition ulp :: "real \<Rightarrow> real" where
  "ulp x = pow2 (binade x - 52)"

definition round_even :: "real \<Rightarrow> int" where
  "round_even q =
     (if q - of_int \<lfloor>q\<rfloor> < 1 / 2 then \<lfloor>q\<rfloor>
      else if 1 / 2 < q - of_int \<lfloor>q\<rfloor> then \<lfloor>q\<rfloor> + 1
      else if even \<lfloor>q\<rfloor> then \<lfloor>q\<rfloor> else \<lfloor>q\<rfloor> + 1)"

definition fl :: "real \<Rightarrow> jsnum" where
  "fl x =
     (if x = 0 then Fin 0
      else let y = of_int (round_even (x / ulp x)) * ulp x
           in if 2 ^ 1024 \<le> \<bar>y\<bar> then (if 0 < x then PInf else NInf) else Fin y)"

text \<open>
  The operators \<open>+\<close>, \<open>-\<close> and \<open><\<close> on numbers, \<open>/\<close> by a positive finite
  number, and \<open>Math.max\<close>, \<open>Math.ceil\<close> and \<open>Math.floor\<close>. The sum, the difference
  and the quotient of finite numbers are the exact results, rounded; the ceiling and the floor
  of a double are doubles.
\<close>

fun js_add :: "jsnum \<Rightarrow> jsnum \<Rightarrow> jsnum" where
  "js_add (Fin a) (Fin b) = fl (a + b)"
| "js_add NaN y = NaN"
| "js_add x NaN = NaN"
| "js_add PInf NInf = NaN"
| "js_add NInf PInf = NaN"
| "js_add PInf y = PInf"
| "js_add x PInf = PInf"
| "js_add NInf y = NInf"
| "js_add x NInf = NInf"

fun js_neg :: "jsnum \<Rightarrow> jsnum" where
  "js_neg (Fin a) = Fin (- a)"
| "js_neg PInf = NInf"
| "js_neg NInf = PInf"
| "js_neg NaN = NaN"

definition js_sub :: "jsnum \<Rightarrow> jsnum \<Rightarrow> jsnum" where
  "js_sub x y = js_add x (js_neg y)"

fun js_div :: "jsnum \<Rightarrow> real \<Rightarrow> jsnum" where
  "js_div (Fin a) d = fl (a / d)"
| "js_div PInf d = PInf"
| "js_div NInf d = NInf"
| "js_div NaN d = NaN"

fun js_lt :: "jsnum \<Rightarrow> jsnum \<Rightarrow> bool" where
  "js_lt (Fin a) (Fin b) = (a < b)"
| "js_lt NaN y = False"
| "js_lt x NaN = False"
| "js_lt x NInf = False"
| "js_lt PInf y = False"
| "js_lt NInf y = True"
| "js_lt x PInf = True"

definition Math_max :: "jsnum \<Rightarrow> jsnum \<Rightarrow> jsnum" where
  "Math_max x y = (if x = NaN \<or> y = NaN then NaN else if js_lt x y then y else x)"

fun Math_ceil :: "jsnum \<Rightarrow> jsnum" where
  "Math_ceil (Fin a) = Fin (of_int \<lceil>a\<rceil>)"
| "Math_ceil x = x"

fun Math_floor :: "jsnum \<Rightarrow> jsnum" where
  "Math_floor (Fin a) = Fin (of_int \<lfloor>a\<rfloor>)"
| "Math_floor x = x"

text \<open>
  What the JavaScript engine decides and the model takes as parameters. ECMAScript leaves the
  accuracy of \<open>Math.pow\<close> and \<open>Math.sqrt\<close> to the implementation and fixes their values
  at zero, at the infinities and at \<open>NaN\<close>: \<open>engine_pow2 x\<close> is \<open>Math.pow(x, 2)\<close> for a
  finite \<open>x\<close> other than zero, \<open>engine_sqrt x\<close> is \<open>Math.sqrt(x)\<close> for a finite positive
  \<open>x\<close>. On an array with an entry that is not a number, \<open>+\<close> concatenates strings, and
  what the quotients and differences make of them depends on how numbers are printed and
  read: \<open>engine_coerced xs\<close> is the value of \<open>stddev < 50\<close> that the handler computes
  for such an array.
\<close>

record engine =
  engine_pow2 :: "real \<Rightarrow> jsnum"
  engine_sqrt :: "real \<Rightarrow> jsnum"
  engine_coerced :: "json list \<Rightarrow> bool"

definition Math_pow2 :: "engine \<Rightarrow> jsnum \<Rightarrow> jsnum" where
  "Math_pow2 eng x =
     (case x of Fin a \<Rightarrow> (if a = 0 then Fin 0 else engine_pow2 eng a)
      | PInf \<Rightarrow> PInf | NInf \<Rightarrow> PInf | NaN \<Rightarrow> NaN)"

definition Math_sqrt :: "engine \<Rightarrow> jsnum \<Rightarrow> jsnum" where
  "Math_sqrt eng x =
     (case x of Fin a \<Rightarrow> (if a = 0 then Fin 0 else if a < 0 then NaN else engine_sqrt eng a)
      | PInf \<Rightarrow> PInf | NInf \<Rightarrow> NaN | NaN \<Rightarrow> NaN)"

text \<open>The JSON values whose type is \<open>number\<close>, and the number that such a value is.\<close>

definition is_number :: "json \<Rightarrow> bool" where
  "is_number j = (case j of JNum r \<Rightarrow> True | JInf \<Rightarrow> True | JNegInf \<Rightarrow> True | JNaN \<Rightarrow> True
                  | _ \<Rightarrow> False)"

definition the_number :: "json \<Rightarrow> jsnum" where
  "the_number j = (case j of JNum r \<Rightarrow> Fin r | JInf \<Rightarrow> PInf | JNegInf \<Rightarrow> NInf | _ \<Rightarrow> NaN)"

section \<open>Registration\<close>

text \<open>
  Every error response of the handlers modelled here, named after the \<open>error\<close> string of
  the response: \<open>TooFast need elapsed\<close> carries the two diagnostic numbers, \<open>ResetCooldown\<close>
  the seconds left. \<open>BadSecret\<close> (admin path, 400 \<open>bad-secret\<close>) and
  \<open>InvalidVerification\<close> (self-service path, 403 \<open>Invalid verification\<close>) are the two
  answers to a secret that does not match, the invalid-claim failure of the specification;
  \<open>NotFound\<close> (admin path, 404 \<open>not-found\<close>) and \<open>ClaimNotFound\<close> (self-service path,
  404 \<open>Invalid claim\<close>) are the answers when no winner record matches the request.
\<close>

datatype error =
    InvalidName | InvalidPlayer | InvalidScore
  | NoActiveRun | TooFast jsnum jsnum | UnnaturalRhythm
  | Forbidden | NotFound | BadSecret
  | MissingParameters | ClaimNotFound | InvalidVerification
  | InvalidItem | NotEnoughCredits | ResetCooldown int | ItemNotUsable









section \<open>Runs and score submission\<close>

text \<open>
  The leaderboard of a day, and \<open>if (!leaderboards[d]) leaderboards[d] = new Map()\<close>, which
  every handler runs before it reads the leaderboard of the current day.
\<close>

definition lookup_board :: "(day \<times> leaderboard) list \<Rightarrow> day \<Rightarrow> leaderboard" where
  "lookup_board lbs d = (case map_of lbs d of None \<Rightarrow> [] | Some lb \<Rightarrow> lb)"

definition open_day :: "(day \<times> leaderboard) list \<Rightarrow> day \<Rightarrow> (day \<times> leaderboard) list" where
  "open_day lbs d = (case map_of lbs d of None \<Rightarrow> AList.update d [] lbs | Some lb \<Rightarrow> lbs)"

definition board_of :: "state \<Rightarrow> day \<Rightarrow> leaderboard" where
  "board_of st d = lookup_board (leaderboards st) d"

definition ensure_board :: "state \<Rightarrow> state" where
  "ensure_board st = st\<lparr>leaderboards := open_day (leaderboards st) (currentDay st)\<rparr>"

text \<open>POST /start-run; \<open>runId\<close> is the value that \<open>uuidv4()\<close> returns in this call.\<close>

definition start_run :: "state \<Rightarrow> int \<Rightarrow> pid \<Rightarrow> string \<Rightarrow> (error + string) \<times> state" where
  "start_run st now playerId runId =
     (case map_of (players st) playerId of
        None \<Rightarrow> (Inl InvalidPlayer, st)
      | Some p \<Rightarrow>
          (Inr runId,
           st\<lparr>runs := AList.update runId \<lparr>r_playerId = playerId, r_startedAt = now\<rparr> (runs st)\<rparr>))"

text \<open>
  The body of a score submission. The handler tests the type of \<open>score\<close> itself, so it is
  any JSON value here, and it tests of \<open>jumpIntervals\<close> only that it is an array, so that is
  any JSON value when the field is present; \<open>playerName\<close> and \<open>runId\<close> are strings when
  present.
\<close>

record submit_req =
  sr_playerId :: pid
  sr_playerName :: "string option"
  sr_score :: json
  sr_runId :: "string option"
  sr_jumpIntervals :: "json option"

text \<open>
  \<open>typeof score !== 'number' || !isFinite(score) || score < 0\<close> rejects; what is left is a
  finite number that is not negative.
\<close>

definition score_value :: "json \<Rightarrow> real option" where
  "score_value j = (case j of JNum r \<Rightarrow> (if r < 0 then None else Some r) | _ \<Rightarrow> None)"

text \<open>
  \<open>(Date.now() - run.startedAt) / 1000\<close>: the two times are whole numbers of milliseconds
  far below \<open>2 ^ 53\<close>, so their difference is exact; the quotient is rounded.
\<close>

definition elapsedSec :: "int \<Rightarrow> run \<Rightarrow> jsnum" where
  "elapsedSec now run = js_div (Fin (real_of_int (now - r_startedAt run))) 1000"

definition minSec :: "real \<Rightarrow> jsnum" where
  "minSec score = Math_max (js_div (Fin score) 6) (Fin 8)"

text \<open>
  The two \<open>reduce\<close> calls over the jump intervals and the square root of the second, for an
  array of numbers; the length of the array is at least 10 where they are computed.
\<close>

definition avg :: "jsnum list \<Rightarrow> jsnum" where
  "avg jumpIntervals =
     js_div (foldl (\<lambda>a b. js_add a b) (Fin 0) jumpIntervals) (real (length jumpIntervals))"

definition variance :: "engine \<Rightarrow> jsnum list \<Rightarrow> jsnum" where
  "variance eng jumpIntervals =
     js_div (foldl (\<lambda>a b. js_add a (Math_pow2 eng (js_sub b (avg jumpIntervals)))) (Fin 0)
               jumpIntervals)
            (real (length jumpIntervals))"

definition stddev :: "engine \<Rightarrow> jsnum list \<Rightarrow> jsnum" where
  "stddev eng jumpIntervals = Math_sqrt eng (variance eng jumpIntervals)"

text \<open>\<open>stddev < 50\<close> for the entries of an array.\<close>

definition below_50 :: "engine \<Rightarrow> json list \<Rightarrow> bool" where
  "below_50 eng xs =
     (if list_all is_number xs then js_lt (stddev eng (map the_number xs)) (Fin 50)
      else engine_coerced eng xs)"

text \<open>
  The anti-cheat block of the handler, entered for a player who is not an admin: the error it
  answers with, or the state with the run deleted.
\<close>

definition anti_cheat ::
  "engine \<Rightarrow> state \<Rightarrow> int \<Rightarrow> pid \<Rightarrow> real \<Rightarrow> string option \<Rightarrow> json option \<Rightarrow> error + state" where
  "anti_cheat eng st now playerId score runId jumpIntervals =
     (case runId of
        None \<Rightarrow> Inl NoActiveRun
      | Some rid \<Rightarrow>
         (case map_of (runs st) rid of
            None \<Rightarrow> Inl NoActiveRun
          | Some run \<Rightarrow>
              if r_playerId run \<noteq> playerId then Inl NoActiveRun
              else if js_lt (js_add (elapsedSec now run) (Fin 2)) (minSec score)
                then Inl (TooFast (Math_ceil (minSec score)) (Math_floor (elapsedSec now run)))
              else if (case jumpIntervals of
                         Some (JArr xs) \<Rightarrow> length xs \<ge> 10 \<and> below_50 eng xs
                       | _ \<Rightarrow> False)
                then Inl UnnaturalRhythm
              else Inr (st\<lparr>runs := AList.delete rid (runs st)\<rparr>)))"

text \<open>
  \<open>playerName && typeof playerName === 'string' && playerName.length > 0 &&
  playerName.length <= 16\<close>
\<close>

definition rename :: "state \<Rightarrow> pid \<Rightarrow> player \<Rightarrow> string option \<Rightarrow> state" where
  "rename st playerId p playerName =
     (case playerName of
        None \<Rightarrow> st
      | Some n \<Rightarrow>
          if 0 < length n \<and> length n \<le> 16
          then st\<lparr>players := AList.update playerId (p\<lparr>p_name := n\<rparr>) (players st)\<rparr>
          else st)"

definition name_of :: "state \<Rightarrow> pid \<Rightarrow> string" where
  "name_of st playerId = (case map_of (players st) playerId of None \<Rightarrow> [] | Some p \<Rightarrow> p_name p)"

text \<open>
  POST /submit-score at time \<open>now\<close>, on the engine \<open>eng\<close>: the response, the state, the
  pushes.
\<close>

definition submit_score ::
  "engine \<Rightarrow> state \<Rightarrow> int \<Rightarrow> submit_req \<Rightarrow> (error + int) \<times> state \<times> push list" where
  "submit_score eng st now req =
     (let playerId = sr_playerId req in
      case map_of (players st) playerId of
        None \<Rightarrow> (Inl InvalidPlayer, st, [])
      | Some p \<Rightarrow>
         (case score_value (sr_score req) of
            None \<Rightarrow> (Inl InvalidScore, st, [])
          | Some score \<Rightarrow>
             (let st1 = ensure_board st in
              case (if \<not> p_isAdmin p
                    then anti_cheat eng st1 now playerId score (sr_runId req)
                           (sr_jumpIntervals req)
                    else Inr st1) of
                Inl e \<Rightarrow> (Inl e, st1, [])
              | Inr st2 \<Rightarrow>
                 (let st3 = rename st2 playerId p (sr_playerName req);
                      lb = board_of st3 (currentDay st3);
                      best = (case map_of lb playerId of
                                None \<Rightarrow> \<lfloor>score\<rfloor>
                              | Some existing \<Rightarrow> max (e_score existing) \<lfloor>score\<rfloor>);
                      st4 = st3\<lparr>leaderboards :=
                              AList.update (currentDay st3)
                                (AList.update playerId
                                   \<lparr>e_playerId = playerId, e_name = name_of st3 playerId,
                                    e_score = best\<rparr> lb)
                                (leaderboards st3)\<rparr>
                  in (Inr best, st4,
                      broadcast st4 (LeaderboardUpdated playerId (name_of st3 playerId) best))))))"

text \<open>A sequence of submissions, each with the time it arrives at.\<close>

fun submit_all :: "engine \<Rightarrow> state \<Rightarrow> (int \<times> submit_req) list \<Rightarrow> state" where
  "submit_all eng st [] = st"
| "submit_all eng st ((now, req) # rest) =
     submit_all eng (fst (snd (submit_score eng st now req))) rest"

text \<open>The floored scores of the submissions of \<open>playerId\<close> that the sequence got accepted.\<close>

fun accepted :: "engine \<Rightarrow> state \<Rightarrow> (int \<times> submit_req) list \<Rightarrow> pid \<Rightarrow> int list" where
  "accepted eng st [] playerId = []"
| "accepted eng st ((now, req) # rest) playerId =
     (case (fst (submit_score eng st now req), score_value (sr_score req)) of
        (Inr best, Some score) \<Rightarrow> (if sr_playerId req = playerId then [\<lfloor>score\<rfloor>] else [])
      | _ \<Rightarrow> [])
     @ accepted eng (fst (snd (submit_score eng st now req))) rest playerId"

text \<open>The score stored for a player in the current day's leaderboard.\<close>

definition stored :: "state \<Rightarrow> pid \<Rightarrow> int option" where
  "stored st playerId =
     map_option e_score (map_of (board_of st (currentDay st)) playerId)"

text \<open>The maximum of a stored score, if any, and a list of scores, taken one by one.\<close>

fun best_of :: "int option \<Rightarrow> int list \<Rightarrow> int option" where
  "best_of b [] = b"
| "best_of b (x # xs) = best_of (Some (case b of None \<Rightarrow> x | Some y \<Rightarrow> max y x)) xs"



section \<open>The daily rollover checker\<close>

text \<open>\<open>cleanupOldRuns\<close> at time \<open>now\<close>: runs started more than an hour ago are deleted.\<close>

definition cleanupOldRuns :: "int \<Rightarrow> state \<Rightarrow> state" where
  "cleanupOldRuns now st =
     st\<lparr>runs := filter (\<lambda>(runId, run). \<not> r_startedAt run < now - 3600000) (runs st)\<rparr>"

text \<open>
  \<open>prevLB.sort((a,b) => b.score - a.score)[0]\<close>. \<open>Array.prototype.sort\<close> is stable, and so
  is \<open>sort_key\<close>; the key is the negated score, so the best score comes first. The
  handler reads element 0 of a list that it has found non-empty.
\<close>

definition top1_of :: "entry list \<Rightarrow> entry option" where
  "top1_of prevLB =
     (case sort_key (\<lambda>e. - e_score e) prevLB of [] \<Rightarrow> None | top1 # rest \<Rightarrow> Some top1)"

text \<open>
  The loop that applies "save from reset", over \<open>Object.entries(players)\<close>. It reads the
  leaderboard of the day that closed and writes the one of the new day; the two days differ,
  so the first is a constant \<open>prevBoard\<close> of the loop. It returns the players and the new
  day's leaderboard.
\<close>

fun save_from_reset ::
  "leaderboard \<Rightarrow> (pid \<times> player) list \<Rightarrow> leaderboard \<Rightarrow> (pid \<times> player) list \<times> leaderboard" where
  "save_from_reset prevBoard [] cur = ([], cur)"
| "save_from_reset prevBoard ((pid, p) # rest) cur =
     (case (if p_saveFromReset p > 0 then map_of prevBoard pid else None) of
        None \<Rightarrow>
          (let r = save_from_reset prevBoard rest cur in ((pid, p) # fst r, snd r))
      | Some prev \<Rightarrow>
          if e_score prev > 0
          then (let r = save_from_reset prevBoard rest
                          (AList.update pid
                             \<lparr>e_playerId = pid, e_name = p_name p, e_score = e_score prev\<rparr> cur)
                in ((pid, p\<lparr>p_saveFromReset := p_saveFromReset p - 1\<rparr>) # fst r, snd r))
          else (let r = save_from_reset prevBoard rest cur in ((pid, p) # fst r, snd r)))"

text \<open>
  What one run of the interval callback reads from outside: the time, the day key of that
  time, and the two random hex strings that a rollover draws for the claim.
\<close>

record tick_in =
  t_now :: int
  t_nowKey :: day
  t_claimSecret :: string
  t_claimCode :: string

text \<open>
  One run of the callback. \<open>sha256\<close> is the hash function of the claim protocol, a
  parameter of the model.
\<close>

definition tick :: "(string \<Rightarrow> string) \<Rightarrow> state \<Rightarrow> tick_in \<Rightarrow> state \<times> push list" where
  "tick sha256 st0 t =
     (let st = cleanupOldRuns (t_now t) st0;
          nowKey = t_nowKey t
      in if nowKey \<noteq> currentDay st then
           (let prevDay = currentDay st;
                lbs = open_day (leaderboards st) nowKey;
                prevBoard = lookup_board lbs prevDay;
                claimSecret = t_claimSecret t;
                claimCode = ''win-'' @ t_claimCode t;
                claimHash = sha256 claimSecret;
                won = (case top1_of (map snd prevBoard) of
                         None \<Rightarrow> (winners st, [])
                       | Some top1 \<Rightarrow>
                           (AList.update prevDay
                              \<lparr>w_day = prevDay, w_playerId = e_playerId top1,
                               w_name = e_name top1, w_score = e_score top1,
                               w_prize = MONEY_DROP_AMOUNT st, w_paid = False,
                               w_verified = False, w_claimHash = claimHash,
                               w_claimCode = claimCode, w_verifiedAt = None\<rparr>
                              (winners st),
                            sseSendTo st (e_playerId top1)
                              (YouWon prevDay claimCode claimSecret (MONEY_DROP_AMOUNT st))));
                saved = save_from_reset prevBoard (players st) (lookup_board lbs nowKey);
                st' = st\<lparr>currentDay := nowKey,
                         leaderboards := AList.update nowKey (snd saved) lbs,
                         winners := fst won,
                         players := fst saved\<rparr>
            in (st', snd won @ broadcast st' (ForceReset nowKey False)))
         else (st, []))"

text \<open>A run of the checker: the callback, once per element of the list.\<close>

fun run_ticks :: "(string \<Rightarrow> string) \<Rightarrow> state \<Rightarrow> tick_in list \<Rightarrow> state" where
  "run_ticks sha256 st [] = st"
| "run_ticks sha256 st (t # ts) = run_ticks sha256 (fst (tick sha256 st t)) ts"

text \<open>The days that the run closes, in order: one for each callback that finds a new day key.\<close>

fun closed_days :: "(string \<Rightarrow> string) \<Rightarrow> state \<Rightarrow> tick_in list \<Rightarrow> day list" where
  "closed_days sha256 st [] = []"
| "closed_days sha256 st (t # ts) =
     (if t_nowKey t \<noteq> currentDay st then [currentDay st] else [])
     @ closed_days sha256 (fst (tick sha256 st t)) ts"

text \<open>The first entry of a list with the greatest score.\<close>

definition first_max :: "entry list \<Rightarrow> entry option" where
  "first_max es = find (\<lambda>e. \<forall>x \<in> set es. e_score x \<le> e_score e) es"

text \<open>
  A player carries a score over a rollover: the counter is positive and the leaderboard that
  closes has an entry of the player with a positive score.
\<close>

definition carries :: "leaderboard \<Rightarrow> pid \<Rightarrow> player \<Rightarrow> bool" where
  "carries prevBoard pid p =
     (p_saveFromReset p > 0 \<and>
      (case map_of prevBoard pid of None \<Rightarrow> False | Some prev \<Rightarrow> e_score prev > 0))"

section \<open>Winner records: reading and claim verification\<close>

text \<open>
  A winner record as \<open>res.json\<close> sends it: every property the object has, in the order
  in which they were created. \<open>verifiedAt\<close> exists once a verification has set it.
\<close>

definition winner_fields :: "winner \<Rightarrow> (string \<times> json) list" where
  "winner_fields w =
     [(''day'', JStr (w_day w)), (''playerId'', JStr (w_playerId w)),
      (''name'', JStr (w_name w)), (''score'', JNum (real_of_int (w_score w))),
      (''prize'', JNum (w_prize w)), (''paid'', JBool (w_paid w)),
      (''verified'', JBool (w_verified w)), (''claimHash'', JStr (w_claimHash w)),
      (''claimCode'', JStr (w_claimCode w))]
     @ (case w_verifiedAt w of None \<Rightarrow> [] | Some stamp \<Rightarrow> [(''verifiedAt'', JStr stamp)])"

text \<open>\<open>Object.keys(winners).sort()\<close>: day keys compare as strings.\<close>

definition winner_days :: "state \<Rightarrow> day list" where
  "winner_days st = sort (map fst (winners st))"

text \<open>GET /me/winner\<close>

definition me_winner :: "state \<Rightarrow> pid \<Rightarrow> json" where
  "me_winner st playerId =
     (case map_of (players st) playerId of
        None \<Rightarrow> JNull
      | Some p \<Rightarrow>
          (let days = winner_days st
           in if days = [] then JNull
              else (case map_of (winners st) (last days) of
                      None \<Rightarrow> JNull
                    | Some w \<Rightarrow>
                        if w_playerId w \<noteq> playerId then JNull
                        else JObj [(''day'', JStr (w_day w)), (''prize'', JNum (w_prize w)),
                                   (''verified'', JBool (w_verified w)),
                                   (''paid'', JBool (w_paid w))])))"

text \<open>GET /yesterday-winner\<close>

definition yesterday_winner :: "state \<Rightarrow> json" where
  "yesterday_winner st =
     (let days = winner_days st
      in if days = [] then JNull
         else (case map_of (winners st) (last days) of
                 None \<Rightarrow> JUndefined
               | Some w \<Rightarrow> JObj (winner_fields w)))"

text \<open>
  GET /winners. The query parameter \<open>limit\<close> is absent (or empty) and read as 7, or
  \<open>parseInt\<close> reads an integer from it, or \<open>parseInt\<close> gives \<open>NaN\<close>; with \<open>NaN\<close>, the
  minimum, the maximum and the start of the slice are \<open>NaN\<close> and the slice is the whole list.
\<close>

datatype limit_param = NoLimit | Limit int | LimitNaN

definition winners_recent :: "state \<Rightarrow> limit_param \<Rightarrow> json" where
  "winners_recent st lp =
     (let days = winner_days st;
          slice = (case lp of
                     LimitNaN \<Rightarrow> days
                   | NoLimit \<Rightarrow> drop (length days - nat (max 1 (min 7 30))) days
                   | Limit n \<Rightarrow> drop (length days - nat (max 1 (min n 30))) days)
      in JArr (map (\<lambda>d. case map_of (winners st) d of
                            None \<Rightarrow> JUndefined
                          | Some w \<Rightarrow> JObj (winner_fields w)) slice))"

text \<open>The value of a property of a JSON object.\<close>

definition property :: "string \<Rightarrow> json \<Rightarrow> json option" where
  "property k j = (case j of JObj kvs \<Rightarrow> map_of kvs k | _ \<Rightarrow> None)"

text \<open>
  A field of a request body that is a string when it is present: \<open>String(v)\<close>, which also
  is the property key that \<open>winners[v]\<close> reads, and \<open>!v\<close>.
\<close>

definition js_String :: "string option \<Rightarrow> string" where
  "js_String v = (case v of None \<Rightarrow> ''undefined'' | Some s \<Rightarrow> s)"

definition falsy :: "string option \<Rightarrow> bool" where
  "falsy v = (v = None \<or> v = Some [])"

text \<open>
  POST /admin/verify-claim. \<open>sha256\<close> is the hash function, \<open>ADMIN_KEY\<close> the configured
  key, \<open>nowIso\<close> the time of the call as \<open>toISOString\<close> writes it; \<open>key\<close> is the query
  parameter, the other three are the fields of the body. The response copies the record with
  \<open>claimHash\<close> set to \<open>undefined\<close>.
\<close>

definition admin_verify_claim ::
  "(string \<Rightarrow> string) \<Rightarrow> string \<Rightarrow> state \<Rightarrow> string \<Rightarrow>
   string option \<Rightarrow> string option \<Rightarrow> string option \<Rightarrow> string option \<Rightarrow> (error + json) \<times> state" where
  "admin_verify_claim sha256 ADMIN_KEY st nowIso key day playerId claimSecret =
     (if key \<noteq> Some ADMIN_KEY then (Inl Forbidden, st)
      else case map_of (winners st) (js_String day) of
        None \<Rightarrow> (Inl NotFound, st)
      | Some w \<Rightarrow>
          if Some (w_playerId w) \<noteq> playerId then (Inl NotFound, st)
          else if sha256 (js_String claimSecret) \<noteq> w_claimHash w then (Inl BadSecret, st)
          else
            (let w' = w\<lparr>w_verified := True, w_verifiedAt := Some nowIso\<rparr>
             in (Inr (JObj [(''ok'', JBool True),
                            (''winner'',
                             JObj (AList.update ''claimHash'' JUndefined (winner_fields w')))]),
                 st\<lparr>winners := AList.update (js_String day) w' (winners st)\<rparr>)))"

text \<open>
  POST /verify-winner. The record is the first one, in the order of the keys of \<open>winners\<close>,
  with the player id and the claim code of the request; a key that is the empty string is
  falsy and counts as not found.
\<close>

definition find_claim :: "state \<Rightarrow> string option \<Rightarrow> string option \<Rightarrow> day option" where
  "find_claim st playerId claimCode =
     find (\<lambda>d. case map_of (winners st) d of
                  None \<Rightarrow> False
                | Some w \<Rightarrow> Some (w_playerId w) = playerId \<and> Some (w_claimCode w) = claimCode)
          (map fst (winners st))"

definition verify_winner ::
  "(string \<Rightarrow> string) \<Rightarrow> state \<Rightarrow> string \<Rightarrow>
   string option \<Rightarrow> string option \<Rightarrow> string option \<Rightarrow> (error + json) \<times> state" where
  "verify_winner sha256 st nowIso playerId claimCode claimSecret =
     (if falsy playerId \<or> falsy claimCode \<or> falsy claimSecret then (Inl MissingParameters, st)
      else case find_claim st playerId claimCode of
        None \<Rightarrow> (Inl ClaimNotFound, st)
      | Some day \<Rightarrow>
          if day = [] then (Inl ClaimNotFound, st)
          else (case map_of (winners st) day of
                  None \<Rightarrow> (Inl ClaimNotFound, st)
                | Some w \<Rightarrow>
                    if sha256 (js_String claimSecret) \<noteq> w_claimHash w
                    then (Inl InvalidVerification, st)
                    else (Inr (JObj [(''ok'', JBool True), (''name'', JStr (w_name w)),
                                     (''score'', JNum (real_of_int (w_score w))),
                                     (''prize'', JNum (w_prize w)), (''day'', JStr (w_day w))]),
                          st\<lparr>winners :=
                               AList.update day
                                 (w\<lparr>w_verified := True, w_verifiedAt := Some nowIso\<rparr>)
                                 (winners st)\<rparr>)))"

text \<open>The paid flag of the record of a day, if there is a record.\<close>

definition paid_of :: "state \<Rightarrow> day \<Rightarrow> bool option" where
  "paid_of st d = map_option w_paid (map_of (winners st) d)"

section \<open>Purchases and items\<close>

definition ITEM_PRICES :: "(string \<times> int) list" where
  "ITEM_PRICES = [(''FLASHBANG'', 10), (''RESET_LEADERBOARD'', 50), (''SAVE_FROM_RESET'', 25),
                  (''SAVE_FROM_FLASHBANGS'', 15)]"

definition RESET_COOLDOWN_MS :: int where
  "RESET_COOLDOWN_MS = 5 * 60 * 1000"

text \<open>POST /purchase: the player as the response reports it, and the state.\<close>

definition purchase :: "state \<Rightarrow> pid \<Rightarrow> string \<Rightarrow> (error + player) \<times> state" where
  "purchase st playerId item =
     (case map_of (players st) playerId of
        None \<Rightarrow> (Inl InvalidPlayer, st)
      | Some p \<Rightarrow>
         (case map_of ITEM_PRICES item of
            None \<Rightarrow> (Inl InvalidItem, st)
          | Some price \<Rightarrow>
              if p_credits p < price then (Inl NotEnoughCredits, st)
              else
                (let p1 = p\<lparr>p_credits := p_credits p - price\<rparr>;
                     p2 = (if item = ''SAVE_FROM_RESET''
                           then p1\<lparr>p_saveFromReset := p_saveFromReset p1 + 1\<rparr>
                           else if item = ''SAVE_FROM_FLASHBANGS''
                           then p1\<lparr>p_flashShieldActive := True\<rparr>
                           else p1)
                 in (Inr p2, st\<lparr>players := AList.update playerId p2 (players st)\<rparr>))))"

text \<open>
  The shuffle of POST /use-item: \<open>i\<close> runs from the last index down to 1, and \<open>random i\<close> is
  what \<open>Math.random()\<close> returns in the round of index \<open>i\<close>. The destructuring assignment
  reads both elements before it writes them.
\<close>

fun shuffle :: "(nat \<Rightarrow> real) \<Rightarrow> nat \<Rightarrow> 'a list \<Rightarrow> 'a list" where
  "shuffle random 0 pool = pool"
| "shuffle random (Suc n) pool =
     (let i = Suc n;
          j = nat \<lfloor>random i * real (i + 1)\<rfloor>
      in shuffle random n (pool[i := pool ! j, j := pool ! i]))"

text \<open>POST /use-item at time \<open>now\<close>: the response, the state, the pushes.\<close>

definition use_item ::
  "state \<Rightarrow> int \<Rightarrow> (nat \<Rightarrow> real) \<Rightarrow> pid \<Rightarrow> string \<Rightarrow> (error + unit) \<times> state \<times> push list" where
  "use_item st now random playerId item =
     (case map_of (players st) playerId of
        None \<Rightarrow> (Inl InvalidPlayer, st, [])
      | Some p \<Rightarrow>
          if item = ''FLASHBANG'' then
            (let all = map fst (sseClients st);
                 pool = filter (\<lambda>id. id \<noteq> playerId) all;
                 targets = take 50 (shuffle random (length pool - 1) pool)
             in (Inr (), st,
                 concat (map (\<lambda>id. sseSendTo st id (Flashbang playerId now)) targets)))
          else if item = ''RESET_LEADERBOARD'' then
            (let diff = now - lastManualReset st
             in if diff < RESET_COOLDOWN_MS
                then (Inl (ResetCooldown \<lceil>real_of_int (RESET_COOLDOWN_MS - diff) / 1000\<rceil>), st, [])
                else
                  (let st' = st\<lparr>lastManualReset := now,
                                 leaderboards := AList.update (currentDay st) [] (leaderboards st)\<rparr>
                   in (Inr (), st', broadcast st' (ForceReset (currentDay st) True))))
          else (Inl ItemNotUsable, st, []))"

section \<open>Example data\<close>

text \<open>
  Two players, a day with a tie at the top of its leaderboard, and two runs of the rollover
  callback: one at noon of that day, one just after the next midnight.
\<close>

definition ana :: player where
  "ana = \<lparr>p_name = ''Ana'', p_credits = 50, p_flashShieldActive = False, p_saveFromReset = 2,
          p_isAdmin = False, p_claimCode = ''drop-0f8fad5b''\<rparr>"

definition bo :: player where
  "bo = \<lparr>p_name = ''Bo'', p_credits = 0, p_flashShieldActive = True, p_saveFromReset = 0,
         p_isAdmin = False, p_claimCode = ''drop-7c9e6679''\<rparr>"

definition day1 :: state where
  "day1 = (init_state ''2024-05-01'' [(''ana'', ana), (''bo'', bo)])
     \<lparr>leaderboards :=
        [(''2024-05-01'',
          [(''bo'', \<lparr>e_playerId = ''bo'', e_name = ''Bo'', e_score = 500\<rparr>),
           (''ana'', \<lparr>e_playerId = ''ana'', e_name = ''Ana'', e_score = 500\<rparr>)])],
      sseClients := [(''ana'', 1), (''bo'', 2)]\<rparr>"

definition noon :: tick_in where
  "noon = \<lparr>t_now = 1714557600000, t_nowKey = ''2024-05-01'',
           t_claimSecret = ''a11ce5'', t_claimCode = ''beef''\<rparr>"

definition midnight :: tick_in where
  "midnight = \<lparr>t_now = 1714600800000, t_nowKey = ''2024-05-02'',
               t_claimSecret = ''5ec2e7'', t_claimCode = ''c0de''\<rparr>"

text \<open>A stand-in for the hash function, which the model takes as a parameter.\<close>

definition hash0 :: "string \<Rightarrow> string" where
  "hash0 s = ''#'' @ s"

text \<open>
  The day after: the state that the rollover leaves, a run that Ana starts in it, and a
  submission of that run with a score below the one carried over.
\<close>

definition day2 :: state where
  "day2 = fst (tick hash0 day1 midnight)"

definition day2_run :: state where
  "day2_run = snd (start_run day2 1714600900000 ''ana'' ''run-1'')"

definition low_score :: "int \<times> submit_req" where
  "low_score = (1714600960000,
     \<lparr>sr_playerId = ''ana'', sr_playerName = None, sr_score = JNum 100,
      sr_runId = Some ''run-1'', sr_jumpIntervals = None\<rparr>)"

text \<open>
  A day on which Ana has two runs open and no entry yet, three submissions (the second with a
  negative score), and the state after the first of them.
\<close>

definition two_runs :: state where
  "two_runs = (init_state ''2024-05-01'' [(''ana'', ana), (''bo'', bo)])
     \<lparr>runs := [(''run-a'', \<lparr>r_playerId = ''ana'', r_startedAt = 1000\<rparr>),
               (''run-b'', \<lparr>r_playerId = ''ana'', r_startedAt = 2000\<rparr>)]\<rparr>"

definition sub_a :: "int \<times> submit_req" where
  "sub_a = (61000, \<lparr>sr_playerId = ''ana'', sr_playerName = None, sr_score = JNum (163 / 4),
                    sr_runId = Some ''run-a'', sr_jumpIntervals = None\<rparr>)"

definition sub_b :: "int \<times> submit_req" where
  "sub_b = (62000, \<lparr>sr_playerId = ''ana'', sr_playerName = None, sr_score = JNum (361 / 4),
                    sr_runId = Some ''run-b'', sr_jumpIntervals = None\<rparr>)"

definition sub_neg :: "int \<times> submit_req" where
  "sub_neg = (63000, \<lparr>sr_playerId = ''ana'', sr_playerName = None, sr_score = JNum (- 5),
                      sr_runId = Some ''run-b'', sr_jumpIntervals = None\<rparr>)"

definition one_run :: state where
  "one_run = two_runs
     \<lparr>runs := [(''run-b'', \<lparr>r_playerId = ''ana'', r_startedAt = 2000\<rparr>)],
      leaderboards := [(''2024-05-01'',
         [(''ana'', \<lparr>e_playerId = ''ana'', e_name = ''Ana'', e_score = 40\<rparr>)])]\<rparr>"

text \<open>
  An admin, a day on which Ana has one run open, her submission of 600 points with that run,
  an array of twelve equal jump intervals, Bo's submission under Ana's run id, and the admin's
  submission without a run.
\<close>

definition zed :: player where
  "zed = \<lparr>p_name = ''Zed'', p_credits = 9999, p_flashShieldActive = False, p_saveFromReset = 0,
          p_isAdmin = True, p_claimCode = ''drop-16fd2706''\<rparr>"

definition arena :: state where
  "arena = (init_state ''2024-05-01'' [(''ana'', ana), (''bo'', bo), (''zed'', zed)])
     \<lparr>runs := [(''run-a'', \<lparr>r_playerId = ''ana'', r_startedAt = 1000\<rparr>)]\<rparr>"

definition score_600 :: "json option \<Rightarrow> submit_req" where
  "score_600 ji = \<lparr>sr_playerId = ''ana'', sr_playerName = None, sr_score = JNum 600,
                   sr_runId = Some ''run-a'', sr_jumpIntervals = ji\<rparr>"



definition bo_steals :: submit_req where
  "bo_steals = \<lparr>sr_playerId = ''bo'', sr_playerName = None, sr_score = JNum 10,
                sr_runId = Some ''run-a'', sr_jumpIntervals = None\<rparr>"

definition zed_submits :: submit_req where
  "zed_submits = \<lparr>sr_playerId = ''zed'', sr_playerName = None, sr_score = JNum 1000000,
                  sr_runId = None, sr_jumpIntervals = None\<rparr>"

text \<open>The winner record that the rollover of the example writes, and a source of random
  numbers.\<close>

definition bo_wins :: winner where
  "bo_wins = \<lparr>w_day = ''2024-05-01'', w_playerId = ''bo'', w_name = ''Bo'', w_score = 500,
      w_prize = 100, w_paid = False, w_verified = False, w_claimHash = ''#5ec2e7'',
      w_claimCode = ''win-c0de'', w_verifiedAt = None\<rparr>"

definition coin :: "nat \<Rightarrow> real" where
  "coin i = 1 / 2"

text \<open>
  A stand-in for the engine: \<open>Math.pow\<close> and \<open>Math.sqrt\<close> correctly rounded, and no array
  with an entry that is not a number found below 50.
\<close>

definition engine0 :: engine where
  "engine0 = \<lparr>engine_pow2 = (\<lambda>x. fl (x * x)), engine_sqrt = (\<lambda>x. fl (sqrt x)),
              engine_coerced = (\<lambda>xs. False)\<rparr>"

text \<open>
  Twelve equal jump intervals of \<open>2 ^ 1023\<close>, a double, and Ana's submission of 600 points
  with them.
\<close>

definition giant :: real where
  "giant = 2 ^ 1023"




section \<open>Properties\<close>

subsection \<open>Rounding to a double\<close>

lemma pow2_powr: "pow2 k = 2 powr real_of_int k"
  by (simp add: pow2_def powr_real_of_int inverse_eq_divide)

lemma ulp_powr: "ulp x = 2 powr real_of_int (binade x - 52)"
  by (simp add: ulp_def pow2_powr)

lemma ulp_pos: "0 < ulp x"
  by (simp add: ulp_powr)

lemma round_even_of_int: "round_even (of_int m) = m"
  by (simp add: round_even_def)

lemma round_even_bounds: "\<lfloor>q\<rfloor> \<le> round_even q \<and> round_even q \<le> \<lfloor>q\<rfloor> + 1"
  by (simp add: round_even_def)

text \<open>A multiple of its own unit in the last place, below the overflow threshold, is a double.\<close>

lemma fl_exact:
  assumes "\<bar>x\<bar> < 2 ^ 1024" and "x / ulp x = of_int m"
  shows "fl x = Fin x"
proof (cases "x = 0")
  case True
  then show ?thesis by (simp add: fl_def)
next
  case False
  have "of_int (round_even (x / ulp x)) * ulp x = (x / ulp x) * ulp x"
    unfolding assms(2) round_even_of_int ..
  also have "\<dots> = x"
    using ulp_pos [of x] by simp
  finally have "of_int (round_even (x / ulp x)) * ulp x = x" .
  with False assms(1) show ?thesis
    by (simp add: fl_def Let_def)
qed


lemma two_powr_int: "0 \<le> k \<Longrightarrow> 2 powr real_of_int k = 2 ^ nat k"
  by (simp add: powr_real_of_int)

lemma floor_log2_upper:
  assumes "0 < x" and "x < 2 ^ k"
  shows "\<lfloor>log 2 x\<rfloor> \<le> int k - 1"
proof -
  let ?j = "\<lfloor>log 2 x\<rfloor>"
  have "2 powr real_of_int ?j \<le> x"
    using floor_log_eq_powr_iff [of x 2 ?j] assms(1) by simp
  also have "x < 2 powr real_of_int (int k)"
    using assms(2) by (simp add: powr_realpow)
  finally have "real_of_int ?j < real_of_int (int k)"
    by (simp only: powr_less_cancel_iff)
  then show ?thesis by linarith
qed

lemma binade_upper:
  assumes "0 < x" and "x < 2 ^ k"
  shows "binade x \<le> max (int k - 1) (- 1022)"
  using floor_log2_upper [OF assms] assms(1) by (auto simp: binade_def)

text \<open>Rounding a number that is not negative and below a power of two stays at or below it.\<close>

lemma fl_upper:
  assumes "0 \<le> x" and "x < 2 ^ k" and "k \<le> 1023"
  shows "\<exists>y. fl x = Fin y \<and> 0 \<le> y \<and> y \<le> 2 ^ k"
proof (cases "x = 0")
  case True
  then show ?thesis by (simp add: fl_def)
next
  case False
  with assms have pos: "0 < x" by simp
  let ?j = "binade x"
  let ?q = "x / ulp x"
  let ?r = "round_even ?q"
  let ?y = "of_int ?r * ulp x"
  define d where "d = int k - ?j + 52"
  have d0: "0 \<le> d"
    using binade_upper [OF pos assms(2)] by (auto simp: d_def)
  have B: "2 ^ k = of_int (2 ^ nat d) * ulp x"
  proof -
    have "of_int (2 ^ nat d) * ulp x = 2 powr real_of_int d * 2 powr real_of_int (?j - 52)"
      using d0 by (simp add: two_powr_int ulp_powr)
    also have "\<dots> = 2 powr real_of_int (int k)"
      unfolding powr_add [symmetric] by (simp add: d_def)
    also have "\<dots> = 2 ^ k"
      by (simp add: powr_realpow)
    finally show ?thesis by simp
  qed
  have "?q < of_int (2 ^ nat d)"
    using assms(2) ulp_pos [of x] unfolding B by (simp add: field_simps)
  then have "\<lfloor>?q\<rfloor> < 2 ^ nat d"
    by (simp only: floor_less_iff)
  then have r: "?r \<le> 2 ^ nat d"
    using round_even_bounds [of ?q] by linarith
  have "0 \<le> ?q"
    using pos ulp_pos [of x] by simp
  then have "0 \<le> \<lfloor>?q\<rfloor>" by simp
  then have r0: "0 \<le> ?r"
    using round_even_bounds [of ?q] by linarith
  have y: "?y \<le> 2 ^ k"
    unfolding B using r ulp_pos [of x] by (simp add: mult_right_mono)
  have y0: "0 \<le> ?y"
    using r0 ulp_pos [of x] by simp
  have "(2::real) ^ k \<le> 2 ^ 1023"
    using assms(3) by (intro power_increasing) auto
  also have "\<dots> < 2 ^ 1024" by simp
  finally have "\<not> 2 ^ 1024 \<le> \<bar>?y\<bar>"
    using y y0 by linarith
  with False y y0 show ?thesis
    by (simp add: fl_def Let_def)
qed

text \<open>The whole numbers below \<open>2 ^ 53\<close> are doubles.\<close>

lemma fl_of_int:
  assumes "\<bar>n\<bar> < 2 ^ 53"
  shows "fl (of_int n) = Fin (of_int n)"
proof (cases "n = 0")
  case True
  then show ?thesis by (simp add: fl_def)
next
  case False
  let ?x = "real_of_int n"
  let ?j = "\<lfloor>log 2 \<bar>?x\<bar>\<rfloor>"
  have pos: "0 < \<bar>?x\<bar>" using False by simp
  have "1 \<le> \<bar>n\<bar>" using False by simp
  then have one: "1 \<le> \<bar>?x\<bar>" by (simp flip: of_int_abs)
  have lo: "2 powr real_of_int ?j \<le> \<bar>?x\<bar>" and hi: "\<bar>?x\<bar> < 2 powr real_of_int (?j + 1)"
    using floor_log_eq_powr_iff [of "\<bar>?x\<bar>" 2 ?j] pos by (simp_all add: add.commute)
  have "\<bar>?x\<bar> < 2 ^ 53"
    using assms by (simp flip: of_int_abs)
  from floor_log2_upper [OF pos this] have j53: "?j \<le> 52" by simp
  from one hi have "2 powr real_of_int 0 < 2 powr real_of_int (?j + 1)" by simp
  then have "real_of_int 0 < real_of_int (?j + 1)" by (simp only: powr_less_cancel_iff)
  then have j0: "0 \<le> ?j" by linarith
  have b: "binade ?x = ?j"
    using j0 by (simp add: binade_def)
  have "2 powr real_of_int (?j - 52) * 2 powr real_of_int (52 - ?j) = 1"
    unfolding powr_add [symmetric] by simp
  then have "?x / ulp ?x = ?x * 2 powr real_of_int (52 - ?j)"
    unfolding ulp_powr b by (simp add: field_simps)
  also have "2 powr real_of_int (52 - ?j) = 2 ^ nat (52 - ?j)"
    using j53 by (intro two_powr_int) simp
  also have "?x * 2 ^ nat (52 - ?j) = of_int (n * 2 ^ nat (52 - ?j))"
    by simp
  finally have q: "?x / ulp ?x = of_int (n * 2 ^ nat (52 - ?j))" .
  have "\<bar>?x\<bar> < 2 ^ 53"
    using assms by (simp flip: of_int_abs)
  also have "\<dots> < (2::real) ^ 1024" by simp
  finally show ?thesis
    using q by (intro fl_exact)
qed

lemma fl_numeral: "(numeral w :: int) < 2 ^ 53 \<Longrightarrow> fl (numeral w) = Fin (numeral w)"
  using fl_of_int [of "numeral w"] by simp




subsection \<open>Draining the pending grants\<close>

lemma grants_of_queueGrant:
  "grants_of (fst (queueGrant st q item c)) p =
     (if p = q then AList.update item (count_of (grants_of st q) item + c) (grants_of st q)
      else grants_of st p)"
  by (simp add: queueGrant_def grants_of_def Let_def update_conv')

lemma count_of_update:
  "count_of (AList.update i v g) j = (if j = i then v else count_of g j)"
  by (simp add: count_of_def update_conv')

lemma keys_queueGrant:
  "fst ` set (grants_of (fst (queueGrant st q item c)) p) =
     (if p = q then insert item (fst ` set (grants_of st p)) else fst ` set (grants_of st p))"
  by (simp add: grants_of_queueGrant dom_update)

lemma count_of_queue_all:
  "count_of (grants_of (queue_all st qs) p) item =
     count_of (grants_of st p) item + sum_list (queued qs p item)"
proof (induction qs arbitrary: st)
  case Nil
  show ?case by (simp add: queued_def)
next
  case (Cons x qs)
  obtain q i c where x: "x = (q, i, c)" by (cases x)
  show ?case
    unfolding x queue_all.simps Cons.IH
    by (simp add: grants_of_queueGrant count_of_update queued_def)
qed

lemma keys_queue_all:
  "fst ` set (grants_of (queue_all st qs) p) =
     fst ` set (grants_of st p) \<union> {i. \<exists>c. (p, i, c) \<in> set qs}"
proof (induction qs arbitrary: st)
  case Nil
  show ?case by simp
next
  case (Cons x qs)
  obtain q i c where x: "x = (q, i, c)" by (cases x)
  show ?case
    unfolding x queue_all.simps Cons.IH keys_queueGrant
    by auto
qed

lemma grants_of_claim_grants:
  "grants_of (snd (claim_grants st p)) q = (if q = p then [] else grants_of st q)"
  by (simp add: claim_grants_def grants_of_def delete_conv')

lemma fst_claim_grants: "fst (claim_grants st p) = grants_of st p"
  by (simp add: claim_grants_def)

lemma map_of_count_of:
  "map_of g i = (if i \<in> fst ` set g then Some (count_of g i) else None)"
  by (auto simp: count_of_def map_of_eq_None_iff split: option.splits)

text \<open>
  C9. A poll of \<open>/claim-grants\<close> for a player returns exactly what was queued for that
  player since the player's previous poll: the items queued, each with the sum of the counts
  queued for it. The poll clears them: a second poll right after it returns the empty
  mapping, and so does a poll after grants were queued for other players only. A poll leaves
  the pending grants of every other player as they were.
\<close>

theorem claim_grants_drains:
  "(let s1 = snd (claim_grants st p);
        s2 = queue_all s1 qs;
        s3 = snd (claim_grants s2 p)
    in (\<forall>item. map_of (fst (claim_grants s2 p)) item =
           (if \<exists>c. (p, item, c) \<in> set qs then Some (sum_list (queued qs p item)) else None))
     \<and> fst (claim_grants s3 p) = []
     \<and> (p \<notin> fst ` set qs \<longrightarrow> fst (claim_grants s2 p) = [])
     \<and> (\<forall>q. q \<noteq> p \<longrightarrow> grants_of s3 q = grants_of s2 q
              \<and> map_of (pendingGrants s3) q = map_of (pendingGrants s2) q))"
proof -
  define s1 where "s1 = snd (claim_grants st p)"
  define s2 where "s2 = queue_all s1 qs"
  define s3 where "s3 = snd (claim_grants s2 p)"
  have empty: "grants_of s1 p = []"
    by (simp add: s1_def grants_of_claim_grants)
  have keys: "fst ` set (grants_of s2 p) = {i. \<exists>c. (p, i, c) \<in> set qs}"
    by (simp add: s2_def keys_queue_all empty)
  have zero: "count_of (grants_of s1 p) item = 0" for item
    by (simp add: empty count_of_def)
  have cnt: "count_of (grants_of s2 p) item = sum_list (queued qs p item)" for item
    unfolding s2_def count_of_queue_all zero by simp
  have a: "map_of (fst (claim_grants s2 p)) item =
           (if \<exists>c. (p, item, c) \<in> set qs then Some (sum_list (queued qs p item)) else None)"
    for item
    using keys cnt [of item] by (simp add: fst_claim_grants map_of_count_of [of "grants_of s2 p"])
  have b: "fst (claim_grants s3 p) = []"
    by (simp add: fst_claim_grants s3_def grants_of_claim_grants)
  have c: "fst (claim_grants s2 p) = []" if "p \<notin> fst ` set qs"
  proof -
    from that have "{i. \<exists>c. (p, i, c) \<in> set qs} = {}" by force
    with keys show ?thesis by (simp add: fst_claim_grants)
  qed
  have d: "grants_of s3 q = grants_of s2 q" if "q \<noteq> p" for q
    using that by (simp add: s3_def grants_of_claim_grants)
  have e: "map_of (pendingGrants s3) q = map_of (pendingGrants s2) q" if "q \<noteq> p" for q
    using that by (simp add: s3_def claim_grants_def)
  from a b c d e show ?thesis
    unfolding Let_def s1_def [symmetric] s2_def [symmetric] s3_def [symmetric] by blast
qed

text \<open>
  C9, an instance. Alice polls, Bo is granted two items, Alice polls again and gets the empty mapping; Bo's
  grant is still there for Bo's poll.
\<close>

theorem claim_grants_drains_witness:
  "(let s1 = snd (claim_grants (init_state ''2024-05-01'' []) ''alice'');
        s2 = queue_all s1 [(''bob'', ''SAVE_FROM_RESET'', 2)];
        s3 = snd (claim_grants s2 ''alice'')
    in ''alice'' \<notin> fst ` set [(''bob'', ''SAVE_FROM_RESET'', 2::int)]
     \<and> ''bob'' \<noteq> ''alice''
     \<and> fst (claim_grants s2 ''alice'') = []
     \<and> grants_of s3 ''bob'' = grants_of s2 ''bob''
     \<and> fst (claim_grants s3 ''bob'') = [(''SAVE_FROM_RESET'', 2)])"
  using claim_grants_drains [of "init_state ''2024-05-01'' []" "''alice''"
      "[(''bob'', ''SAVE_FROM_RESET'', 2)]"]
  by (simp add: Let_def init_state_def claim_grants_def queueGrant_def grants_of_def
      count_of_def)

subsection \<open>Registration\<close>









subsection \<open>Rollover: the winner and the carried scores\<close>

lemma find_as_filter:
  "find P xs = (case filter P xs of [] \<Rightarrow> None | x # rest \<Rightarrow> Some x)"
  by (induction xs) auto

lemma top1_of_first_max: "top1_of es = first_max es"
proof (cases "sort_key (\<lambda>e. - e_score e) es")
  case Nil
  then have "es = []"
    by (metis length_sort length_0_conv)
  then show ?thesis
    by (simp add: top1_of_def first_max_def)
next
  case (Cons top1 rest)
  let ?f = "\<lambda>e::entry. - e_score e"
  have srt: "sorted (map ?f (top1 # rest))"
    using sorted_sort_key [of ?f es] Cons by simp
  have sets: "set es = set (top1 # rest)"
    using set_sort [of ?f es] Cons by simp
  have top: "e_score x \<le> e_score top1" if "x \<in> set es" for x
    using srt sets that by auto
  have mem: "top1 \<in> set es"
    using sets by simp
  have same: "(\<forall>x \<in> set es. e_score x \<le> e_score e) = (?f e = ?f top1)" if "e \<in> set es" for e
    using top [OF that] top mem by force
  have "filter (\<lambda>y. ?f y = ?f top1) es = filter (\<lambda>y. ?f y = ?f top1) (top1 # rest)"
    using sort_key_stable [of ?f "?f top1" es] Cons by simp
  then have "find (\<lambda>y. ?f y = ?f top1) es = Some top1"
    by (simp add: find_as_filter)
  moreover have "first_max es = find (\<lambda>y. ?f y = ?f top1) es"
    unfolding first_max_def by (rule find_cong) (use same in auto)
  ultimately show ?thesis
    by (simp add: top1_of_def Cons)
qed

lemma first_max_None: "first_max es = None \<longleftrightarrow> es = []"
  unfolding top1_of_first_max [symmetric] top1_of_def
  by (cases "sort_key (\<lambda>e. - e_score e) es") (auto dest: arg_cong [where f = length])

lemma first_max_Some:
  assumes "first_max es = Some top1"
  shows "\<exists>i < length es. es ! i = top1 \<and> (\<forall>x \<in> set es. e_score x \<le> e_score top1)
           \<and> (\<forall>j < i. e_score (es ! j) < e_score top1)"
proof -
  from assms obtain i where i: "i < length es" "es ! i = top1"
      "\<forall>x \<in> set es. e_score x \<le> e_score top1"
      "\<forall>j < i. \<not> (\<forall>x \<in> set es. e_score x \<le> e_score (es ! j))"
    unfolding first_max_def find_Some_iff by blast
  have "e_score (es ! j) < e_score top1" if "j < i" for j
  proof -
    from i(4) that obtain x where "x \<in> set es" "\<not> e_score x \<le> e_score (es ! j)" by blast
    with i(3) show ?thesis by force
  qed
  with i show ?thesis by blast
qed

lemma tick_same_day:
  "t_nowKey t = currentDay st \<Longrightarrow> tick sha256 st t = (cleanupOldRuns (t_now t) st, [])"
  by (simp add: tick_def Let_def cleanupOldRuns_def)

lemma currentDay_tick: "currentDay (fst (tick sha256 st t)) = t_nowKey t"
  by (simp add: tick_def Let_def cleanupOldRuns_def)

lemma lookup_open_day: "lookup_board (open_day lbs d) d' = lookup_board lbs d'"
  by (simp add: lookup_board_def open_day_def update_conv' split: option.splits)

lemma lookup_update:
  "lookup_board (AList.update d lb lbs) d' = (if d' = d then lb else lookup_board lbs d')"
  by (simp add: lookup_board_def update_conv')

lemma winners_tick:
  assumes "t_nowKey t \<noteq> currentDay st"
  shows "winners (fst (tick sha256 st t)) =
     (case top1_of (map snd (board_of st (currentDay st))) of
        None \<Rightarrow> winners st
      | Some top1 \<Rightarrow>
          AList.update (currentDay st)
            \<lparr>w_day = currentDay st, w_playerId = e_playerId top1, w_name = e_name top1,
             w_score = e_score top1, w_prize = MONEY_DROP_AMOUNT st, w_paid = False,
             w_verified = False, w_claimHash = sha256 (t_claimSecret t),
             w_claimCode = ''win-'' @ t_claimCode t, w_verifiedAt = None\<rparr>
            (winners st))"
  using assms
  by (simp add: tick_def Let_def cleanupOldRuns_def board_of_def lookup_open_day
      split: option.splits)

lemma players_tick:
  assumes "t_nowKey t \<noteq> currentDay st"
  shows "players (fst (tick sha256 st t)) =
     fst (save_from_reset (board_of st (currentDay st)) (players st) (board_of st (t_nowKey t)))"
  using assms
  by (simp add: tick_def Let_def cleanupOldRuns_def board_of_def lookup_open_day)

lemma board_tick:
  assumes "t_nowKey t \<noteq> currentDay st"
  shows "board_of (fst (tick sha256 st t)) (t_nowKey t) =
     snd (save_from_reset (board_of st (currentDay st)) (players st) (board_of st (t_nowKey t)))"
  using assms
  by (simp add: tick_def Let_def cleanupOldRuns_def board_of_def lookup_open_day lookup_update)

lemma closed_days_sorted:
  "sorted (currentDay st # map t_nowKey ts) \<Longrightarrow>
   distinct (closed_days sha256 st ts) \<and> (\<forall>d \<in> set (closed_days sha256 st ts). currentDay st \<le> d)"
proof (induction ts arbitrary: st)
  case Nil
  show ?case by simp
next
  case (Cons t ts)
  let ?st' = "fst (tick sha256 st t)"
  from Cons.prems have le: "currentDay st \<le> t_nowKey t" and rest: "sorted (t_nowKey t # map t_nowKey ts)"
    by simp_all
  from rest have "sorted (currentDay ?st' # map t_nowKey ts)"
    by (simp add: currentDay_tick)
  from Cons.IH [OF this]
  have d: "distinct (closed_days sha256 ?st' ts)"
    and ge: "\<forall>d \<in> set (closed_days sha256 ?st' ts). t_nowKey t \<le> d"
    by (simp_all add: currentDay_tick)
  show ?case
  proof (cases "t_nowKey t = currentDay st")
    case True
    with d ge show ?thesis by simp
  next
    case False
    with le have "currentDay st < t_nowKey t" by simp
    with ge have "currentDay st \<notin> set (closed_days sha256 ?st' ts)" by auto
    with d ge le False show ?thesis by auto
  qed
qed

lemma sfr_players:
  "map_of (fst (save_from_reset prev ps cur)) pid =
     map_option (\<lambda>p. if carries prev pid p then p\<lparr>p_saveFromReset := p_saveFromReset p - 1\<rparr> else p)
       (map_of ps pid)"
  by (induction ps arbitrary: cur)
     (auto simp: carries_def Let_def split: option.splits)

lemma sfr_keys: "map fst (fst (save_from_reset prev ps cur)) = map fst ps"
  by (induction ps arbitrary: cur) (auto simp: Let_def split: option.splits)

lemma sfr_board_absent:
  "pid \<notin> fst ` set ps \<Longrightarrow> map_of (snd (save_from_reset prev ps cur)) pid = map_of cur pid"
  by (induction ps arbitrary: cur)
     (auto simp: Let_def update_conv' split: option.splits)

lemma sfr_board:
  "distinct (map fst ps) \<Longrightarrow>
   map_of (snd (save_from_reset prev ps cur)) pid =
     (case map_of ps pid of
        None \<Rightarrow> map_of cur pid
      | Some p \<Rightarrow>
          if carries prev pid p
          then map_option (\<lambda>e. \<lparr>e_playerId = pid, e_name = p_name p, e_score = e_score e\<rparr>)
                 (map_of prev pid)
          else map_of cur pid)"
proof (induction ps arbitrary: cur)
  case Nil
  show ?case by simp
next
  case (Cons x ps)
  obtain q p0 where x: "x = (q, p0)" by (cases x)
  from Cons.prems have dist: "distinct (map fst ps)" and fresh: "q \<notin> fst ` set ps"
    by (simp_all add: x)
  show ?case
  proof (cases "q = pid")
    case True
    with fresh show ?thesis
      by (auto simp: x Let_def sfr_board_absent update_conv' carries_def split: option.splits)
  next
    case False
    then show ?thesis
      by (auto simp: x Let_def Cons.IH [OF dist] update_conv' split: option.splits)
  qed
qed

lemma winners_other_day:
  "d \<noteq> currentDay st \<Longrightarrow> map_of (winners (fst (tick sha256 st t))) d = map_of (winners st) d"
proof (cases "t_nowKey t = currentDay st")
  case True
  then show ?thesis by (simp add: tick_same_day cleanupOldRuns_def)
next
  case False
  assume "d \<noteq> currentDay st"
  then show ?thesis
    by (simp add: winners_tick [OF False] update_conv' split: option.splits)
qed

lemma closed_record_stays:
  "sorted (currentDay st # map t_nowKey ts) \<Longrightarrow> d < currentDay st \<Longrightarrow>
   map_of (winners (run_ticks sha256 st ts)) d = map_of (winners st) d"
proof (induction ts arbitrary: st)
  case Nil
  show ?case by simp
next
  case (Cons t ts)
  let ?st' = "fst (tick sha256 st t)"
  from Cons.prems have "sorted (currentDay ?st' # map t_nowKey ts)"
    by (simp add: currentDay_tick)
  moreover from Cons.prems have "d < currentDay ?st'"
    by (auto simp: currentDay_tick intro: less_le_trans)
  ultimately have "map_of (winners (run_ticks sha256 ?st' ts)) d = map_of (winners ?st') d"
    by (rule Cons.IH)
  also from Cons.prems(2) have "\<dots> = map_of (winners st) d"
    by (intro winners_other_day) simp
  finally show ?case by simp
qed

text \<open>
  C4. A callback that finds the day key unchanged only sweeps old runs. A callback always
  leaves the current day equal to the key it read, so after a change of the key the callbacks
  of the same day find it unchanged: one transition per change. At a transition the winner
  records change in one place at most: when the leaderboard of the day that closes has no
  entry they stay as they are, and otherwise the record of that day is written from the first
  entry with the greatest score. When the day keys that the callbacks read never go back, no
  day is closed twice, so its record is written at most once, and the record of a day before
  the current one is the same after any number of callbacks.
\<close>

theorem rollover_once:
  "(t_nowKey t = currentDay st \<longrightarrow> tick sha256 st t = (cleanupOldRuns (t_now t) st, []))
   \<and> currentDay (fst (tick sha256 st t)) = t_nowKey t
   \<and> (t_nowKey t \<noteq> currentDay st \<longrightarrow>
        winners (fst (tick sha256 st t)) =
          (case first_max (map snd (board_of st (currentDay st))) of
             None \<Rightarrow> winners st
           | Some top1 \<Rightarrow>
               AList.update (currentDay st)
                 \<lparr>w_day = currentDay st, w_playerId = e_playerId top1, w_name = e_name top1,
                  w_score = e_score top1, w_prize = MONEY_DROP_AMOUNT st, w_paid = False,
                  w_verified = False, w_claimHash = sha256 (t_claimSecret t),
                  w_claimCode = ''win-'' @ t_claimCode t, w_verifiedAt = None\<rparr>
                 (winners st)))
   \<and> (first_max es = None \<longleftrightarrow> es = [])
   \<and> (first_max es = Some e \<longrightarrow>
        (\<exists>i < length es. es ! i = e
           \<and> (\<forall>x \<in> set es. e_score x \<le> e_score e)
           \<and> (\<forall>j < i. e_score (es ! j) < e_score e)))
   \<and> (sorted (currentDay st # map t_nowKey ts) \<longrightarrow>
        distinct (closed_days sha256 st ts)
        \<and> (\<forall>d. d < currentDay st \<longrightarrow>
              map_of (winners (run_ticks sha256 st ts)) d = map_of (winners st) d))"
proof (intro conjI)
  show "t_nowKey t = currentDay st \<longrightarrow> tick sha256 st t = (cleanupOldRuns (t_now t) st, [])"
    by (simp add: tick_same_day)
  show "currentDay (fst (tick sha256 st t)) = t_nowKey t"
    by (rule currentDay_tick)
  show "t_nowKey t \<noteq> currentDay st \<longrightarrow>
        winners (fst (tick sha256 st t)) =
          (case first_max (map snd (board_of st (currentDay st))) of
             None \<Rightarrow> winners st
           | Some top1 \<Rightarrow>
               AList.update (currentDay st)
                 \<lparr>w_day = currentDay st, w_playerId = e_playerId top1, w_name = e_name top1,
                  w_score = e_score top1, w_prize = MONEY_DROP_AMOUNT st, w_paid = False,
                  w_verified = False, w_claimHash = sha256 (t_claimSecret t),
                  w_claimCode = ''win-'' @ t_claimCode t, w_verifiedAt = None\<rparr>
                 (winners st))"
    unfolding top1_of_first_max [symmetric] by (rule impI) (rule winners_tick)
  show "first_max es = None \<longleftrightarrow> es = []"
    by (rule first_max_None)
  show "first_max es = Some e \<longrightarrow>
        (\<exists>i < length es. es ! i = e
           \<and> (\<forall>x \<in> set es. e_score x \<le> e_score e)
           \<and> (\<forall>j < i. e_score (es ! j) < e_score e))"
    by (rule impI) (rule first_max_Some)
  show "sorted (currentDay st # map t_nowKey ts) \<longrightarrow>
        distinct (closed_days sha256 st ts)
        \<and> (\<forall>d. d < currentDay st \<longrightarrow>
              map_of (winners (run_ticks sha256 st ts)) d = map_of (winners st) d)"
    using closed_days_sorted [of st ts sha256] closed_record_stays [of st ts _ sha256] by blast
qed

text \<open>
  C4, an instance. A callback at noon changes nothing; the callback after midnight closes
  2024-05-01, where Bo and Ana tie at 500 and Bo's entry comes first; a further callback on the
  new day closes nothing.
\<close>

theorem rollover_once_witness:
  "t_nowKey noon = currentDay day1
   \<and> tick hash0 day1 noon = (day1, [])
   \<and> t_nowKey midnight \<noteq> currentDay day1
   \<and> first_max (map snd (board_of day1 (currentDay day1)))
        = Some \<lparr>e_playerId = ''bo'', e_name = ''Bo'', e_score = 500\<rparr>
   \<and> winners (fst (tick hash0 day1 midnight)) =
        [(''2024-05-01'',
          \<lparr>w_day = ''2024-05-01'', w_playerId = ''bo'', w_name = ''Bo'', w_score = 500,
           w_prize = 100, w_paid = False, w_verified = False,
           w_claimHash = hash0 ''5ec2e7'', w_claimCode = ''win-c0de'', w_verifiedAt = None\<rparr>)]
   \<and> sorted (currentDay day1 # map t_nowKey [noon, midnight, midnight])
   \<and> distinct (closed_days hash0 day1 [noon, midnight, midnight])
   \<and> closed_days hash0 day1 [noon, midnight, midnight] = [''2024-05-01'']
   \<and> ''2024-04-30'' < currentDay day1
   \<and> map_of (winners (run_ticks hash0 day1 [noon, midnight, midnight])) ''2024-04-30'' = None"
proof -
  have cur: "currentDay day1 = ''2024-05-01''"
    by (simp add: day1_def init_state_def)
  have k1: "t_nowKey noon = ''2024-05-01''" and k2: "t_nowKey midnight = ''2024-05-02''"
    by (simp_all add: noon_def midnight_def)
  have sweep: "cleanupOldRuns (t_now noon) day1 = day1"
    by (simp add: cleanupOldRuns_def day1_def init_state_def)
  have fm: "first_max (map snd (board_of day1 (currentDay day1)))
        = Some \<lparr>e_playerId = ''bo'', e_name = ''Bo'', e_score = 500\<rparr>"
    by (simp add: first_max_def board_of_def lookup_board_def day1_def init_state_def)
  have same: "tick hash0 day1 noon = (day1, [])"
    using rollover_once [of noon day1 hash0, THEN conjunct1] by (simp add: k1 cur sweep)
  have "winners (fst (tick hash0 day1 midnight)) =
          (case first_max (map snd (board_of day1 (currentDay day1))) of
             None \<Rightarrow> winners day1
           | Some top1 \<Rightarrow>
               AList.update (currentDay day1)
                 \<lparr>w_day = currentDay day1, w_playerId = e_playerId top1, w_name = e_name top1,
                  w_score = e_score top1, w_prize = MONEY_DROP_AMOUNT day1, w_paid = False,
                  w_verified = False, w_claimHash = hash0 (t_claimSecret midnight),
                  w_claimCode = ''win-'' @ t_claimCode midnight, w_verifiedAt = None\<rparr>
                 (winners day1))"
    by (rule rollover_once [THEN conjunct2, THEN conjunct2, THEN conjunct1, rule_format])
       (simp add: k2 cur)
  then have won: "winners (fst (tick hash0 day1 midnight)) =
        [(''2024-05-01'',
          \<lparr>w_day = ''2024-05-01'', w_playerId = ''bo'', w_name = ''Bo'', w_score = 500,
           w_prize = 100, w_paid = False, w_verified = False,
           w_claimHash = hash0 ''5ec2e7'', w_claimCode = ''win-c0de'', w_verifiedAt = None\<rparr>)]"
    unfolding fm by (simp add: cur midnight_def) (simp add: day1_def init_state_def)
  have srt: "sorted (currentDay day1 # map t_nowKey [noon, midnight, midnight])"
    by (simp add: cur k1 k2)
  note run = rollover_once [THEN conjunct2, THEN conjunct2, THEN conjunct2, THEN conjunct2,
      THEN conjunct2, rule_format, OF srt]
  have dist: "distinct (closed_days hash0 day1 [noon, midnight, midnight])"
    by (rule run [THEN conjunct1])
  have before: "''2024-04-30'' < currentDay day1"
    by (simp add: cur)
  have old: "map_of (winners (run_ticks hash0 day1 [noon, midnight, midnight])) ''2024-04-30'' = None"
    using run [THEN conjunct2, rule_format, OF before] by (simp add: day1_def init_state_def)
  have closed: "closed_days hash0 day1 [noon, midnight, midnight] = [''2024-05-01'']"
    by (simp add: same currentDay_tick k1 k2 cur)
  from same fm won srt dist closed before old show ?thesis
    by (simp add: k1 k2 cur)
qed

text \<open>
  C5. At a rollover, a player whose counter is positive and who has an entry with a positive
  score in the leaderboard that closes gets an entry with that score, under the same player id,
  in the leaderboard of the new day, and the counter goes down by one. Any other player keeps
  the counter, and the new day's leaderboard holds for that player what it held before the
  rollover, which is nothing when the new day has no leaderboard yet. The player ids are the
  keys of the \<open>players\<close> object, so they are distinct.
\<close>

theorem save_from_reset_at_rollover:
  assumes "t_nowKey t \<noteq> currentDay st"
    and "distinct (map fst (players st))"
    and "map_of (players st) pid = Some p"
  shows
  "(\<forall>prev. p_saveFromReset p > 0 \<and> map_of (board_of st (currentDay st)) pid = Some prev
            \<and> e_score prev > 0 \<longrightarrow>
        map_of (board_of (fst (tick sha256 st t)) (t_nowKey t)) pid =
          Some \<lparr>e_playerId = pid, e_name = p_name p, e_score = e_score prev\<rparr>
      \<and> map_of (players (fst (tick sha256 st t))) pid =
          Some (p\<lparr>p_saveFromReset := p_saveFromReset p - 1\<rparr>))
   \<and> (p_saveFromReset p \<le> 0
        \<or> (\<forall>prev. map_of (board_of st (currentDay st)) pid = Some prev \<longrightarrow> e_score prev \<le> 0) \<longrightarrow>
        map_of (board_of (fst (tick sha256 st t)) (t_nowKey t)) pid =
          map_of (board_of st (t_nowKey t)) pid
      \<and> (map_of (leaderboards st) (t_nowKey t) = None \<longrightarrow>
           map_of (board_of (fst (tick sha256 st t)) (t_nowKey t)) pid = None)
      \<and> map_of (players (fst (tick sha256 st t))) pid = Some p)"
proof -
  let ?prev = "board_of st (currentDay st)"
  let ?st' = "fst (tick sha256 st t)"
  have board: "map_of (board_of ?st' (t_nowKey t)) pid =
      (if carries ?prev pid p
       then map_option (\<lambda>e. \<lparr>e_playerId = pid, e_name = p_name p, e_score = e_score e\<rparr>)
              (map_of ?prev pid)
       else map_of (board_of st (t_nowKey t)) pid)"
    by (simp add: board_tick [OF assms(1)] sfr_board [OF assms(2)] assms(3))
  have pl: "map_of (players ?st') pid =
      Some (if carries ?prev pid p then p\<lparr>p_saveFromReset := p_saveFromReset p - 1\<rparr> else p)"
    by (simp add: players_tick [OF assms(1)] sfr_players assms(3))
  have fresh: "map_of (board_of st (t_nowKey t)) pid = None"
    if "map_of (leaderboards st) (t_nowKey t) = None"
    using that by (simp add: board_of_def lookup_board_def)
  have yes: "carries ?prev pid p"
    if "p_saveFromReset p > 0 \<and> map_of ?prev pid = Some prev \<and> e_score prev > 0" for prev
    using that by (simp add: carries_def)
  have no: "\<not> carries ?prev pid p"
    if "p_saveFromReset p \<le> 0 \<or> (\<forall>prev. map_of ?prev pid = Some prev \<longrightarrow> e_score prev \<le> 0)"
    using that by (auto simp: carries_def split: option.splits)
  show ?thesis
  proof (intro conjI allI impI)
    fix prev
    assume a: "p_saveFromReset p > 0 \<and> map_of ?prev pid = Some prev \<and> e_score prev > 0"
    from yes [OF a] a board
    show "map_of (board_of ?st' (t_nowKey t)) pid =
        Some \<lparr>e_playerId = pid, e_name = p_name p, e_score = e_score prev\<rparr>"
      by simp
    from yes [OF a] pl
    show "map_of (players ?st') pid = Some (p\<lparr>p_saveFromReset := p_saveFromReset p - 1\<rparr>)"
      by simp
  next
    assume a: "p_saveFromReset p \<le> 0
        \<or> (\<forall>prev. map_of ?prev pid = Some prev \<longrightarrow> e_score prev \<le> 0)"
    from no [OF a] board
    show same: "map_of (board_of ?st' (t_nowKey t)) pid = map_of (board_of st (t_nowKey t)) pid"
      by simp
    from no [OF a] pl show "map_of (players ?st') pid = Some p"
      by simp
    assume "map_of (leaderboards st) (t_nowKey t) = None"
    from fresh [OF this] same show "map_of (board_of ?st' (t_nowKey t)) pid = None"
      by simp
  qed
qed

text \<open>
  C5, an instance. The same rollover: Ana, with two saves, keeps her 500 on the new day and has one save left;
  Bo, with none, starts the new day without an entry.
\<close>

theorem save_from_reset_at_rollover_witness:
  "t_nowKey midnight \<noteq> currentDay day1
   \<and> distinct (map fst (players day1))
   \<and> map_of (players day1) ''ana'' = Some ana
   \<and> map_of (players day1) ''bo'' = Some bo
   \<and> p_saveFromReset ana > 0
   \<and> map_of (board_of day1 (currentDay day1)) ''ana''
        = Some \<lparr>e_playerId = ''ana'', e_name = ''Ana'', e_score = 500\<rparr>
   \<and> p_saveFromReset bo \<le> 0
   \<and> map_of (leaderboards day1) (t_nowKey midnight) = None
   \<and> map_of (board_of (fst (tick hash0 day1 midnight)) ''2024-05-02'') ''ana''
        = Some \<lparr>e_playerId = ''ana'', e_name = ''Ana'', e_score = 500\<rparr>
   \<and> map_of (players (fst (tick hash0 day1 midnight))) ''ana''
        = Some (ana\<lparr>p_saveFromReset := 1\<rparr>)
   \<and> map_of (board_of (fst (tick hash0 day1 midnight)) ''2024-05-02'') ''bo'' = None
   \<and> map_of (players (fst (tick hash0 day1 midnight))) ''bo'' = Some bo"
proof -
  have key: "t_nowKey midnight \<noteq> currentDay day1"
    by (simp add: midnight_def day1_def init_state_def)
  have dist: "distinct (map fst (players day1))"
    by (simp add: day1_def init_state_def)
  have a: "map_of (players day1) ''ana'' = Some ana" and b: "map_of (players day1) ''bo'' = Some bo"
    by (simp_all add: day1_def init_state_def)
  have prev: "map_of (board_of day1 (currentDay day1)) ''ana''
        = Some \<lparr>e_playerId = ''ana'', e_name = ''Ana'', e_score = 500\<rparr>"
    by (simp add: board_of_def lookup_board_def day1_def init_state_def)
  have new: "map_of (leaderboards day1) (t_nowKey midnight) = None"
    by (simp add: midnight_def day1_def init_state_def)
  have cnt: "p_saveFromReset ana = 2" "p_name ana = ''Ana''" "p_saveFromReset bo = 0"
    by (simp_all add: ana_def bo_def)
  have k2: "t_nowKey midnight = ''2024-05-02''"
    by (simp add: midnight_def)
  from save_from_reset_at_rollover [OF key dist a, of hash0]
       save_from_reset_at_rollover [OF key dist b, of hash0]
  show ?thesis
    using key dist a b prev new by (simp add: cnt k2 board_of_def lookup_board_def)
qed

subsection \<open>Score submission\<close>


text \<open>
  The time rule lets a submission pass when the score over 6 is below a power of two that the
  elapsed seconds plus 2 have reached.
\<close>

lemma not_too_fast:
  assumes "0 \<le> x" and "x < 2 ^ k" and "k \<le> 1023" and "2 ^ k \<le> s" and "8 \<le> s"
  shows "js_lt (Fin s) (Math_max (fl x) (Fin 8)) = False"
proof -
  from fl_upper [OF assms(1-3)] obtain y where "fl x = Fin y" "y \<le> 2 ^ k"
    by auto
  then show ?thesis
    using assms(4,5) by (simp add: Math_max_def)
qed

lemma board_of_ensure_board: "board_of (ensure_board st) d = board_of st d"
  by (simp add: board_of_def ensure_board_def lookup_open_day)

lemma stored_ensure_board: "stored (ensure_board st) q = stored st q"
  by (simp add: stored_def board_of_ensure_board) (simp add: ensure_board_def)

lemma anti_cheat_Inr:
  "anti_cheat eng st now pid score runId ji = Inr st2 \<Longrightarrow>
   \<exists>rid run. runId = Some rid \<and> map_of (runs st) rid = Some run \<and> r_playerId run = pid
     \<and> st2 = st\<lparr>runs := AList.delete rid (runs st)\<rparr>"
  by (auto simp: anti_cheat_def split: option.splits if_splits json.splits)

lemma submit_invalid_player:
  "map_of (players st) (sr_playerId req) = None \<Longrightarrow>
   submit_score eng st now req = (Inl InvalidPlayer, st, [])"
  by (simp add: submit_score_def)

lemma submit_invalid_score:
  "map_of (players st) (sr_playerId req) = Some p \<Longrightarrow> score_value (sr_score req) = None \<Longrightarrow>
   submit_score eng st now req = (Inl InvalidScore, st, [])"
  by (simp add: submit_score_def)

text \<open>The three ways out of the handler after the player and the score were found valid.\<close>

lemma submit_rejected:
  assumes "map_of (players st) (sr_playerId req) = Some p"
    and "score_value (sr_score req) = Some score"
    and "\<not> p_isAdmin p"
    and "anti_cheat eng (ensure_board st) now (sr_playerId req) score (sr_runId req)
           (sr_jumpIntervals req) = Inl e"
  shows "submit_score eng st now req = (Inl e, ensure_board st, [])"
  using assms by (simp add: submit_score_def Let_def)

lemma record_stored:
  assumes "currentDay st3 = d"
  shows "stored (st3\<lparr>leaderboards := AList.update d (AList.update pid en (board_of st3 d))
                      (leaderboards st3)\<rparr>) q
         = (if q = pid then Some (e_score en) else stored st3 q)"
  using assms by (simp add: stored_def board_of_def lookup_update update_conv')

lemma rename_frame:
  "leaderboards (rename st pid p n) = leaderboards st"
  "currentDay (rename st pid p n) = currentDay st"
  "runs (rename st pid p n) = runs st"
  by (simp_all add: rename_def split: option.splits)

lemma stored_rename: "stored (rename st pid p n) q = stored st q"
  by (simp add: stored_def board_of_def rename_frame)

lemma submit_accepted:
  assumes "map_of (players st) (sr_playerId req) = Some p"
    and "score_value (sr_score req) = Some score"
    and "(if \<not> p_isAdmin p
          then anti_cheat eng (ensure_board st) now (sr_playerId req) score (sr_runId req)
                 (sr_jumpIntervals req)
          else Inr (ensure_board st)) = Inr st2"
  shows "fst (submit_score eng st now req) =
           Inr (case stored st (sr_playerId req) of None \<Rightarrow> \<lfloor>score\<rfloor> | Some old \<Rightarrow> max old \<lfloor>score\<rfloor>)"
    and "stored (fst (snd (submit_score eng st now req))) q =
           (if q = sr_playerId req
            then Some (case stored st (sr_playerId req) of None \<Rightarrow> \<lfloor>score\<rfloor>
                       | Some old \<Rightarrow> max old \<lfloor>score\<rfloor>)
            else stored st q)"
    and "currentDay (fst (snd (submit_score eng st now req))) = currentDay st"
    and "runs (fst (snd (submit_score eng st now req))) = runs st2"
proof -
  have st2: "leaderboards st2 = leaderboards (ensure_board st)"
      "currentDay st2 = currentDay st"
    using assms(3) by (auto simp: ensure_board_def split: if_splits dest!: anti_cheat_Inr)
  let ?st3 = "rename st2 (sr_playerId req) p (sr_playerName req)"
  have b3: "board_of ?st3 (currentDay ?st3) = board_of st (currentDay st)"
    by (simp add: board_of_def rename_frame st2)
       (simp add: ensure_board_def lookup_open_day)
  have s3: "stored ?st3 q = stored st q" for q
    unfolding stored_def b3 ..
  have best: "(case map_of (board_of ?st3 (currentDay ?st3)) (sr_playerId req) of
                 None \<Rightarrow> \<lfloor>score\<rfloor> | Some existing \<Rightarrow> max (e_score existing) \<lfloor>score\<rfloor>)
              = (case stored st (sr_playerId req) of None \<Rightarrow> \<lfloor>score\<rfloor> | Some old \<Rightarrow> max old \<lfloor>score\<rfloor>)"
    unfolding b3 by (simp add: stored_def split: option.splits)
  show "fst (submit_score eng st now req) =
           Inr (case stored st (sr_playerId req) of None \<Rightarrow> \<lfloor>score\<rfloor> | Some old \<Rightarrow> max old \<lfloor>score\<rfloor>)"
    using assms best by (simp add: submit_score_def Let_def)
  have c3: "currentDay ?st3 = currentDay st"
    by (simp add: rename_frame st2)
  show "stored (fst (snd (submit_score eng st now req))) q =
           (if q = sr_playerId req
            then Some (case stored st (sr_playerId req) of None \<Rightarrow> \<lfloor>score\<rfloor>
                       | Some old \<Rightarrow> max old \<lfloor>score\<rfloor>)
            else stored st q)"
    using assms
    by (simp add: submit_score_def Let_def record_stored [OF refl] best s3)
  show "currentDay (fst (snd (submit_score eng st now req))) = currentDay st"
    using assms by (simp add: submit_score_def Let_def c3)
  show "runs (fst (snd (submit_score eng st now req))) = runs st2"
    using assms by (simp add: submit_score_def Let_def rename_frame)
qed

text \<open>One submission, whatever its outcome: what it does to the stored score of a player.\<close>

lemma submit_step:
  "stored (fst (snd (submit_score eng st now req))) q =
     best_of (stored st q) (accepted eng st [(now, req)] q)
   \<and> currentDay (fst (snd (submit_score eng st now req))) = currentDay st"
proof (cases "map_of (players st) (sr_playerId req)")
  case None
  then show ?thesis by (simp add: submit_invalid_player)
next
  case (Some p)
  show ?thesis
  proof (cases "score_value (sr_score req)")
    case None
    with Some show ?thesis by (simp add: submit_invalid_score)
  next
    case (Some score)
    note sc = this
    let ?ac = "if \<not> p_isAdmin p
          then anti_cheat eng (ensure_board st) now (sr_playerId req) score (sr_runId req)
                 (sr_jumpIntervals req)
          else Inr (ensure_board st)"
    show ?thesis
    proof (cases ?ac)
      case (Inl e)
      then have na: "\<not> p_isAdmin p" and ac: "anti_cheat eng (ensure_board st) now (sr_playerId req) score
          (sr_runId req) (sr_jumpIntervals req) = Inl e"
        by (auto split: if_splits)
      show ?thesis
        by (simp add: submit_rejected [OF \<open>map_of (players st) (sr_playerId req) = Some p\<close> sc na ac]
            stored_ensure_board) (simp add: ensure_board_def)
    next
      case (Inr st2)
      note acc = submit_accepted [OF \<open>map_of (players st) (sr_playerId req) = Some p\<close> sc Inr]
      show ?thesis
        by (simp add: acc sc split: option.splits)
    qed
  qed
qed

lemma best_of_append: "best_of b (xs @ ys) = best_of (best_of b xs) ys"
  by (induction xs arbitrary: b) auto

lemma stored_submit_all:
  "stored (submit_all eng st reqs) q = best_of (stored st q) (accepted eng st reqs q)"
proof (induction reqs arbitrary: st)
  case Nil
  show ?case by simp
next
  case (Cons x reqs)
  obtain now req where x: "x = (now, req)" by (cases x)
  let ?st1 = "fst (snd (submit_score eng st now req))"
  have "stored (submit_all eng st ((now, req) # reqs)) q = stored (submit_all eng ?st1 reqs) q"
    by simp
  also have "\<dots> = best_of (stored ?st1 q) (accepted eng ?st1 reqs q)"
    by (rule Cons.IH)
  also have "stored ?st1 q = best_of (stored st q) (accepted eng st [(now, req)] q)"
    using submit_step [of eng st now req q] by (rule conjunct1)
  also have "best_of (best_of (stored st q) (accepted eng st [(now, req)] q)) (accepted eng ?st1 reqs q)
      = best_of (stored st q) (accepted eng st [(now, req)] q @ accepted eng ?st1 reqs q)"
    by (rule best_of_append [symmetric])
  also have "accepted eng st [(now, req)] q @ accepted eng ?st1 reqs q = accepted eng st ((now, req) # reqs) q"
    by simp
  finally show ?case
    unfolding x .
qed

lemma Max_insert_max:
  "finite S \<Longrightarrow> Max (insert (max y x) S) = Max (insert y (insert x S))" for x y :: int
  by (cases "S = {}") (simp_all add: max.assoc)

lemma best_of_Some_Max: "best_of (Some y) xs = Some (Max (insert y (set xs)))"
proof (induction xs arbitrary: y)
  case Nil
  show ?case by simp
next
  case (Cons x xs)
  have "best_of (Some y) (x # xs) = Some (Max (insert (max y x) (set xs)))"
    by (simp add: Cons.IH)
  also have "Max (insert (max y x) (set xs)) = Max (insert y (insert x (set xs)))"
    by (rule Max_insert_max) simp
  finally show ?case by simp
qed

lemma best_of_Max:
  "best_of b xs =
     (if b = None \<and> xs = [] then None else Some (Max (set_option b \<union> set xs)))"
proof (cases b)
  case (Some y)
  then show ?thesis by (simp add: best_of_Some_Max)
next
  case None
  then show ?thesis by (cases xs) (simp_all add: best_of_Some_Max)
qed

lemma best_of_mono: "best_of (Some v) xs = Some v' \<Longrightarrow> v \<le> v'"
  by (induction xs arbitrary: v) (auto dest: order_trans [OF max.cobounded1])

lemma best_of_Some: "\<exists>v'. best_of (Some v) xs = Some v'"
  by (induction xs arbitrary: v) auto

lemma currentDay_submit_all: "currentDay (submit_all eng st reqs) = currentDay st"
proof (induction reqs arbitrary: st)
  case Nil
  show ?case by simp
next
  case (Cons x reqs)
  obtain now req where x: "x = (now, req)" by (cases x)
  show ?case
    unfolding x submit_all.simps Cons.IH using submit_step [of eng st now req] by simp
qed

lemma score_value_None: "score_value j = None \<longleftrightarrow> (\<forall>r. j = JNum r \<longrightarrow> r < 0)"
  by (cases j) (auto simp: score_value_def)

text \<open>
  C1 (amended). Over any sequence of submissions, the score stored for a player in the current
  day is the maximum of the score stored for the player before the sequence, if there was one
  (an entry carried over by "save from reset"), and the floored scores of the player's accepted
  submissions; with no entry before, it is the maximum of the floored accepted scores. A stored
  score never decreases, and the submissions leave the current day as it is. For a registered
  player, a score that is not a finite number or is negative is answered with the invalid-score
  error, and the state stays as it is.
\<close>

theorem best_score_is_max:
  "stored (submit_all eng st reqs) p =
     (if stored st p = None \<and> accepted eng st reqs p = [] then None
      else Some (Max (set_option (stored st p) \<union> set (accepted eng st reqs p))))
   \<and> (stored st p = None \<and> accepted eng st reqs p \<noteq> [] \<longrightarrow>
        stored (submit_all eng st reqs) p = Some (Max (set (accepted eng st reqs p))))
   \<and> (\<forall>v. stored st p = Some v \<longrightarrow> (\<exists>v'. stored (submit_all eng st reqs) p = Some v' \<and> v \<le> v'))
   \<and> currentDay (submit_all eng st reqs) = currentDay st
   \<and> (map_of (players st) (sr_playerId req) \<noteq> None \<and> score_value (sr_score req) = None \<longrightarrow>
        submit_score eng st now req = (Inl InvalidScore, st, []))
   \<and> (score_value j = None \<longleftrightarrow> (\<forall>r. j = JNum r \<longrightarrow> r < 0))"
proof (intro conjI)
  show eq: "stored (submit_all eng st reqs) p =
     (if stored st p = None \<and> accepted eng st reqs p = [] then None
      else Some (Max (set_option (stored st p) \<union> set (accepted eng st reqs p))))"
    unfolding stored_submit_all by (rule best_of_Max)
  show "stored st p = None \<and> accepted eng st reqs p \<noteq> [] \<longrightarrow>
        stored (submit_all eng st reqs) p = Some (Max (set (accepted eng st reqs p)))"
    unfolding eq by simp
  show "\<forall>v. stored st p = Some v \<longrightarrow> (\<exists>v'. stored (submit_all eng st reqs) p = Some v' \<and> v \<le> v')"
    unfolding stored_submit_all using best_of_Some best_of_mono by metis
  show "currentDay (submit_all eng st reqs) = currentDay st"
    by (rule currentDay_submit_all)
  show "map_of (players st) (sr_playerId req) \<noteq> None \<and> score_value (sr_score req) = None \<longrightarrow>
        submit_score eng st now req = (Inl InvalidScore, st, [])"
    using submit_invalid_score by blast
  show "score_value j = None \<longleftrightarrow> (\<forall>r. j = JNum r \<longrightarrow> r < 0)"
    by (rule score_value_None)
qed

lemma day2_value:
  "day2 = \<lparr>players = [(''ana'', ana\<lparr>p_saveFromReset := 1\<rparr>), (''bo'', bo)],
     leaderboards =
       [(''2024-05-01'',
         [(''bo'', \<lparr>e_playerId = ''bo'', e_name = ''Bo'', e_score = 500\<rparr>),
          (''ana'', \<lparr>e_playerId = ''ana'', e_name = ''Ana'', e_score = 500\<rparr>)]),
        (''2024-05-02'',
         [(''ana'', \<lparr>e_playerId = ''ana'', e_name = ''Ana'', e_score = 500\<rparr>)])],
     winners =
       [(''2024-05-01'',
         \<lparr>w_day = ''2024-05-01'', w_playerId = ''bo'', w_name = ''Bo'',
            w_score = 500, w_prize = 100, w_paid = False,
            w_verified = False, w_claimHash = ''#5ec2e7'',
            w_claimCode = ''win-c0de'', w_verifiedAt = None\<rparr>)],
     runs = [], sseClients = [(''ana'', 1), (''bo'', 2)],
     pendingGrants = [], currentDay = ''2024-05-02'', lastManualReset = 0,
     MONEY_DROP_AMOUNT = 100\<rparr>"
  by (simp add: day2_def tick_def day1_def midnight_def init_state_def Let_def cleanupOldRuns_def
      open_day_def lookup_board_def top1_of_def ana_def bo_def hash0_def)

lemma day2_run_value:
  "day2_run = day2\<lparr>runs := [(''run-1'', \<lparr>r_playerId = ''ana'', r_startedAt = 1714600900000\<rparr>)]\<rparr>"
  by (simp add: day2_run_def start_run_def day2_value)

text \<open>
  C1 as first stated fails. After the rollover of the example Ana's
  entry of the new day is the 500 carried over. Her one submission of the new day is accepted
  with 100 points, and the stored score is 500, not the maximum of what she submitted.
\<close>

theorem best_score_is_max_counterexample:
  "currentDay day2_run = ''2024-05-02''
   \<and> stored day2_run ''ana'' = Some 500
   \<and> accepted engine0 day2_run [low_score] ''ana'' = [100]
   \<and> stored (submit_all engine0 day2_run [low_score]) ''ana'' = Some 500
   \<and> stored (submit_all engine0 day2_run [low_score]) ''ana''
       \<noteq> Some (Max (set (accepted engine0 day2_run [low_score] ''ana'')))"
proof -
  have sub: "submit_score engine0 day2_run (fst low_score) (snd low_score) =
      (Inr 500, day2_run\<lparr>runs := []\<rparr>, [(''ana'', LeaderboardUpdated ''ana'' ''Ana'' 500),
                                           (''bo'', LeaderboardUpdated ''ana'' ''Ana'' 500)])"
    by (simp add: day2_run_value day2_value low_score_def submit_score_def Let_def
        score_value_def ensure_board_def open_day_def anti_cheat_def elapsedSec_def minSec_def
        fl_numeral not_too_fast [where k = 5]
        rename_def board_of_def lookup_board_def name_of_def ana_def bo_def broadcast_def)
  have st: "stored day2_run ''ana'' = Some 500" "currentDay day2_run = ''2024-05-02''"
    by (simp_all add: stored_def board_of_def lookup_board_def day2_run_value day2_value)
  have acc: "accepted engine0 day2_run [low_score] ''ana'' = [100]"
    using sub by (simp add: low_score_def score_value_def)
  have fin: "stored (submit_all engine0 day2_run [low_score]) ''ana'' = Some 500"
    using sub by (simp add: low_score_def stored_def board_of_def lookup_board_def
        day2_run_value day2_value)
  from st acc fin show ?thesis by simp
qed

lemmas eval_submit = submit_score_def Let_def
        score_value_def ensure_board_def open_day_def anti_cheat_def elapsedSec_def minSec_def
        fl_numeral
        rename_def board_of_def lookup_board_def name_of_def ana_def bo_def broadcast_def
        init_state_def

lemma accepted_Cons:
  "accepted eng st (x # rest) p =
     (case (fst (submit_score eng st (fst x) (snd x)), score_value (sr_score (snd x))) of
        (Inr best, Some score) \<Rightarrow> (if sr_playerId (snd x) = p then [\<lfloor>score\<rfloor>] else [])
      | _ \<Rightarrow> [])
     @ accepted eng (fst (snd (submit_score eng st (fst x) (snd x)))) rest p"
  by (cases x) (simp split: sum.splits option.splits)

text \<open>
  C1, an instance. Ana submits 40.75, then a negative score, then 90.25: two are accepted, floored to 40
  and 90,
  the stored score is 90, and the negative one is answered with the invalid-score error.
\<close>

theorem best_score_is_max_witness:
  "stored two_runs ''ana'' = None
   \<and> accepted engine0 two_runs [sub_a, sub_neg, sub_b] ''ana'' = [40, 90]
   \<and> stored (submit_all engine0 two_runs [sub_a, sub_neg, sub_b]) ''ana'' = Some 90
   \<and> stored day2_run ''ana'' = Some 500
   \<and> (\<exists>v'. stored (submit_all engine0 day2_run [low_score]) ''ana'' = Some v' \<and> 500 \<le> v')
   \<and> map_of (players two_runs) (sr_playerId (snd sub_neg)) \<noteq> None
   \<and> score_value (sr_score (snd sub_neg)) = None
   \<and> submit_score engine0 two_runs (fst sub_neg) (snd sub_neg) = (Inl InvalidScore, two_runs, [])"
proof -
  have s0: "stored two_runs ''ana'' = None"
    by (simp add: stored_def two_runs_def eval_submit)
  have a: "submit_score engine0 two_runs (fst sub_a) (snd sub_a) = (Inr 40, one_run, [])"
    by (simp add: one_run_def two_runs_def sub_a_def eval_submit not_too_fast [where k = 3])
  have n: "submit_score engine0 one_run (fst sub_neg) (snd sub_neg) = (Inl InvalidScore, one_run, [])"
    by (simp add: one_run_def two_runs_def sub_neg_def eval_submit)
  have b: "fst (submit_score engine0 one_run (fst sub_b) (snd sub_b)) = Inr 90"
    by (simp add: one_run_def two_runs_def sub_b_def eval_submit not_too_fast [where k = 4])
  have sv: "score_value (sr_score (snd sub_a)) = Some (163 / 4)"
      "score_value (sr_score (snd sub_b)) = Some (361 / 4)"
      "score_value (sr_score (snd sub_neg)) = None"
    by (simp_all add: sub_a_def sub_b_def sub_neg_def score_value_def)
  have pid: "sr_playerId (snd sub_a) = ''ana''" "sr_playerId (snd sub_b) = ''ana''"
      "sr_playerId (snd sub_neg) = ''ana''"
    by (simp_all add: sub_a_def sub_b_def sub_neg_def)
  have acc: "accepted engine0 two_runs [sub_a, sub_neg, sub_b] ''ana'' = [40, 90]"
    by (simp add: accepted_Cons a n b sv pid)
  have pl: "map_of (players two_runs) ''ana'' = Some ana"
    by (simp add: two_runs_def init_state_def)
  have s5: "stored day2_run ''ana'' = Some 500"
    by (simp add: stored_def board_of_def lookup_board_def day2_run_value day2_value)
  from best_score_is_max [of engine0 two_runs "[sub_a, sub_neg, sub_b]" "''ana''" "snd sub_neg"
           "fst sub_neg"]
       best_score_is_max [of engine0 day2_run "[low_score]" "''ana''"]
  show ?thesis
    using s0 acc s5 pl sv by (simp add: pid)
qed

lemma runs_ensure_board: "runs (ensure_board st) = runs st"
  by (simp add: ensure_board_def)

lemma submit_no_run:
  assumes "map_of (players st) (sr_playerId req) = Some p"
    and "score_value (sr_score req) = Some score"
    and "\<not> p_isAdmin p"
    and "\<forall>rid run. sr_runId req = Some rid \<and> map_of (runs st) rid = Some run \<longrightarrow>
           r_playerId run \<noteq> sr_playerId req"
  shows "fst (submit_score eng st now req) = Inl NoActiveRun"
proof -
  have "anti_cheat eng (ensure_board st) now (sr_playerId req) score (sr_runId req)
          (sr_jumpIntervals req) = Inl NoActiveRun"
    using assms(4) by (auto simp: anti_cheat_def runs_ensure_board split: option.splits)
  from submit_rejected [OF assms(1-3) this] show ?thesis by simp
qed

lemma submit_nonadmin_accepted:
  assumes "map_of (players st) (sr_playerId req) = Some p"
    and "\<not> p_isAdmin p"
    and "fst (submit_score eng st now req) = Inr best"
  shows "\<exists>rid run. sr_runId req = Some rid \<and> map_of (runs st) rid = Some run
           \<and> r_playerId run = sr_playerId req
           \<and> runs (fst (snd (submit_score eng st now req))) = AList.delete rid (runs st)"
proof -
  from assms obtain score where sc: "score_value (sr_score req) = Some score"
    by (cases "score_value (sr_score req)") (auto simp: submit_invalid_score)
  let ?ac = "anti_cheat eng (ensure_board st) now (sr_playerId req) score (sr_runId req)
               (sr_jumpIntervals req)"
  obtain st2 where ok: "?ac = Inr st2"
    using assms(3) submit_rejected [OF assms(1) sc assms(2)] by (cases ?ac) auto
  from anti_cheat_Inr [OF ok] obtain rid run where r: "sr_runId req = Some rid"
      "map_of (runs st) rid = Some run" "r_playerId run = sr_playerId req"
      "st2 = (ensure_board st)\<lparr>runs := AList.delete rid (runs (ensure_board st))\<rparr>"
    by (auto simp: runs_ensure_board)
  from ok assms(2) have "(if \<not> p_isAdmin p then ?ac else Inr (ensure_board st)) = Inr st2"
    by simp
  from submit_accepted(4) [OF assms(1) sc this]
  have "runs (fst (snd (submit_score eng st now req))) = AList.delete rid (runs st)"
    by (simp add: r(4) runs_ensure_board)
  with r show ?thesis by blast
qed

text \<open>
  C7. For a registered player who is not an admin and a valid score: a submission whose run
  id names no run, or a run of another player, fails with NoActiveRun; a submission that is
  accepted names a run of the player and that run is deleted, so any later submission by a
  registered player who is not an admin, with a valid score and the same run id, fails with
  NoActiveRun. For an admin the submission is accepted whatever the runs are, and the runs stay
  as they are.
\<close>

theorem run_single_use:
  assumes "map_of (players st) (sr_playerId req) = Some p"
    and "score_value (sr_score req) = Some score"
  shows
  "(\<not> p_isAdmin p
     \<and> (\<forall>rid run. sr_runId req = Some rid \<and> map_of (runs st) rid = Some run \<longrightarrow>
            r_playerId run \<noteq> sr_playerId req) \<longrightarrow>
      fst (submit_score eng st now req) = Inl NoActiveRun)
   \<and> (\<forall>best. \<not> p_isAdmin p \<and> fst (submit_score eng st now req) = Inr best \<longrightarrow>
        (\<exists>rid run. sr_runId req = Some rid \<and> map_of (runs st) rid = Some run
           \<and> r_playerId run = sr_playerId req
           \<and> map_of (runs (fst (snd (submit_score eng st now req)))) rid = None
           \<and> (\<forall>now2 req2 p2 score2.
                 sr_runId req2 = Some rid
                 \<and> map_of (players (fst (snd (submit_score eng st now req)))) (sr_playerId req2) = Some p2
                 \<and> \<not> p_isAdmin p2
                 \<and> score_value (sr_score req2) = Some score2 \<longrightarrow>
                 fst (submit_score eng (fst (snd (submit_score eng st now req))) now2 req2)
                   = Inl NoActiveRun)))
   \<and> (p_isAdmin p \<longrightarrow>
        (\<exists>best. fst (submit_score eng st now req) = Inr best)
        \<and> runs (fst (snd (submit_score eng st now req))) = runs st)"
proof (intro conjI allI impI)
  assume "\<not> p_isAdmin p
     \<and> (\<forall>rid run. sr_runId req = Some rid \<and> map_of (runs st) rid = Some run \<longrightarrow>
            r_playerId run \<noteq> sr_playerId req)"
  then show "fst (submit_score eng st now req) = Inl NoActiveRun"
    using submit_no_run [OF assms] by blast
next
  fix best
  let ?st' = "fst (snd (submit_score eng st now req))"
  assume a: "\<not> p_isAdmin p \<and> fst (submit_score eng st now req) = Inr best"
  then obtain rid run where r: "sr_runId req = Some rid" "map_of (runs st) rid = Some run"
      "r_playerId run = sr_playerId req" "runs ?st' = AList.delete rid (runs st)"
    using submit_nonadmin_accepted [OF assms(1)] by blast
  have gone: "map_of (runs ?st') rid = None"
    by (simp add: r(4) delete_conv')
  have again: "fst (submit_score eng ?st' now2 req2) = Inl NoActiveRun"
    if "sr_runId req2 = Some rid
        \<and> map_of (players ?st') (sr_playerId req2) = Some p2
        \<and> \<not> p_isAdmin p2
        \<and> score_value (sr_score req2) = Some score2" for now2 req2 p2 score2
    using that gone by (intro submit_no_run [where p = p2 and score = score2]) auto
  from r gone again
  show "\<exists>rid run. sr_runId req = Some rid \<and> map_of (runs st) rid = Some run
           \<and> r_playerId run = sr_playerId req
           \<and> map_of (runs ?st') rid = None
           \<and> (\<forall>now2 req2 p2 score2.
                 sr_runId req2 = Some rid
                 \<and> map_of (players ?st') (sr_playerId req2) = Some p2
                 \<and> \<not> p_isAdmin p2
                 \<and> score_value (sr_score req2) = Some score2 \<longrightarrow>
                 fst (submit_score eng ?st' now2 req2) = Inl NoActiveRun)"
    by blast
next
  assume adm: "p_isAdmin p"
  then have "(if \<not> p_isAdmin p
          then anti_cheat eng (ensure_board st) now (sr_playerId req) score (sr_runId req)
                 (sr_jumpIntervals req)
          else Inr (ensure_board st)) = Inr (ensure_board st)"
    by simp
  note acc = submit_accepted [OF assms this]
  from acc(1) show "\<exists>best. fst (submit_score eng st now req) = Inr best"
    by blast
  from acc(4) show "runs (fst (snd (submit_score eng st now req))) = runs st"
    by (simp add: runs_ensure_board)
qed

text \<open>
  C7, an instance. Bo submits under Ana's run id and fails; Ana submits her run and is accepted, the run is
  gone and the same submission again fails; the admin submits without any run.
\<close>

theorem run_single_use_witness:
  "map_of (players arena) (sr_playerId bo_steals) = Some bo
   \<and> score_value (sr_score bo_steals) = Some 10
   \<and> \<not> p_isAdmin bo
   \<and> fst (submit_score engine0 arena 100000 bo_steals) = Inl NoActiveRun
   \<and> map_of (players arena) (sr_playerId (score_600 None)) = Some ana
   \<and> \<not> p_isAdmin ana
   \<and> fst (submit_score engine0 arena 100000 (score_600 None)) = Inr 600
   \<and> map_of (runs (fst (snd (submit_score engine0 arena 100000 (score_600 None))))) ''run-a'' = None
   \<and> fst (submit_score engine0 (fst (snd (submit_score engine0 arena 100000 (score_600 None)))) 200000
            (score_600 None)) = Inl NoActiveRun
   \<and> map_of (players arena) (sr_playerId zed_submits) = Some zed
   \<and> p_isAdmin zed
   \<and> (\<exists>best. fst (submit_score engine0 arena 100000 zed_submits) = Inr best)
   \<and> runs (fst (snd (submit_score engine0 arena 100000 zed_submits))) = runs arena"
proof -
  let ?st' = "fst (snd (submit_score engine0 arena 100000 (score_600 None)))"
  have pb: "map_of (players arena) (sr_playerId bo_steals) = Some bo"
    and sb: "score_value (sr_score bo_steals) = Some 10"
    and nb: "\<not> p_isAdmin bo"
    by (simp_all add: arena_def bo_steals_def init_state_def score_value_def bo_def)
  have other: "\<forall>rid run. sr_runId bo_steals = Some rid \<and> map_of (runs arena) rid = Some run \<longrightarrow>
      r_playerId run \<noteq> sr_playerId bo_steals"
    by (simp add: arena_def bo_steals_def)
  from run_single_use [OF pb sb, of engine0 100000, THEN conjunct1] nb other
  have stolen: "fst (submit_score engine0 arena 100000 bo_steals) = Inl NoActiveRun"
    by blast
  have pa: "map_of (players arena) (sr_playerId (score_600 None)) = Some ana"
    and sa: "score_value (sr_score (score_600 None)) = Some 600"
    and na: "\<not> p_isAdmin ana"
    and rid: "sr_runId (score_600 None) = Some ''run-a''"
    by (simp_all add: arena_def score_600_def init_state_def score_value_def ana_def)
  have first: "fst (submit_score engine0 arena 100000 (score_600 None)) = Inr 600"
    by (simp add: arena_def score_600_def eval_submit Math_max_def)
  have pa': "map_of (players ?st') (sr_playerId (score_600 None)) = Some ana"
    by (simp add: arena_def score_600_def eval_submit Math_max_def)
  from run_single_use [OF pa sa, of engine0 100000, THEN conjunct2, THEN conjunct1] na first
  obtain rid' run where r: "sr_runId (score_600 None) = Some rid'"
      "map_of (runs ?st') rid' = None"
      "\<forall>now2 req2 p2 score2.
         sr_runId req2 = Some rid'
         \<and> map_of (players ?st') (sr_playerId req2) = Some p2
         \<and> \<not> p_isAdmin p2
         \<and> score_value (sr_score req2) = Some score2 \<longrightarrow>
         fst (submit_score engine0 ?st' now2 req2) = Inl NoActiveRun"
    by blast
  from r(1) rid have same: "rid' = ''run-a''" by simp
  from r(3) [rule_format, of "score_600 None" ana 600 200000] r(1) pa' na sa
  have second: "fst (submit_score engine0 ?st' 200000 (score_600 None)) = Inl NoActiveRun"
    by blast
  have pz: "map_of (players arena) (sr_playerId zed_submits) = Some zed"
    and sz: "score_value (sr_score zed_submits) = Some 1000000"
    and az: "p_isAdmin zed"
    by (simp_all add: arena_def zed_submits_def init_state_def score_value_def zed_def)
  from run_single_use [OF pz sz, of engine0 100000, THEN conjunct2, THEN conjunct2] az
  have admin: "(\<exists>best. fst (submit_score engine0 arena 100000 zed_submits) = Inr best)
      \<and> runs (fst (snd (submit_score engine0 arena 100000 zed_submits))) = runs arena"
    by blast
  from pb sb nb stolen pa na first r(2) second pz az admin show ?thesis
    unfolding same by blast
qed










lemma giant_pos: "0 < giant"
  by (simp add: giant_def)









subsection \<open>Claim verification and the winner endpoints\<close>

lemma admin_verify_located:
  assumes "key = Some ADMIN_KEY" and "map_of (winners st) (js_String day) = Some w"
    and "playerId = Some (w_playerId w)"
  shows "admin_verify_claim sha256 ADMIN_KEY st nowIso key day playerId claimSecret =
     (if sha256 (js_String claimSecret) \<noteq> w_claimHash w then (Inl BadSecret, st)
      else (Inr (JObj [(''ok'', JBool True),
                       (''winner'',
                        JObj (AList.update ''claimHash'' JUndefined
                               (winner_fields (w\<lparr>w_verified := True, w_verifiedAt := Some nowIso\<rparr>))))]),
            st\<lparr>winners := AList.update (js_String day)
                             (w\<lparr>w_verified := True, w_verifiedAt := Some nowIso\<rparr>) (winners st)\<rparr>))"
  using assms by (simp add: admin_verify_claim_def Let_def)

lemma verify_winner_located:
  assumes "\<not> falsy playerId" and "\<not> falsy claimCode" and "\<not> falsy claimSecret"
    and "find_claim st playerId claimCode = Some d" and "d \<noteq> []"
    and "map_of (winners st) d = Some w"
  shows "verify_winner sha256 st nowIso playerId claimCode claimSecret =
     (if sha256 (js_String claimSecret) \<noteq> w_claimHash w then (Inl InvalidVerification, st)
      else (Inr (JObj [(''ok'', JBool True), (''name'', JStr (w_name w)),
                       (''score'', JNum (real_of_int (w_score w))),
                       (''prize'', JNum (w_prize w)), (''day'', JStr (w_day w))]),
            st\<lparr>winners := AList.update d
                             (w\<lparr>w_verified := True, w_verifiedAt := Some nowIso\<rparr>) (winners st)\<rparr>))"
  using assms by (simp add: verify_winner_def)

lemma find_claim_Some:
  "find_claim st playerId claimCode = Some d \<Longrightarrow>
   \<exists>w. map_of (winners st) d = Some w \<and> Some (w_playerId w) = playerId
       \<and> Some (w_claimCode w) = claimCode"
  by (auto simp: find_claim_def find_Some_iff split: option.splits)

lemma find_claim_verified:
  assumes "map_of (winners st) d = Some w"
  shows "find_claim (st\<lparr>winners := AList.update d (w\<lparr>w_verified := True, w_verifiedAt := Some stamp\<rparr>)
                                     (winners st)\<rparr>) playerId claimCode
         = find_claim st playerId claimCode"
proof -
  from assms have "d \<in> set (map fst (winners st))"
    by (metis map_of_eq_None_iff option.distinct(1) set_map)
  then have keys: "map fst (AList.update d (w\<lparr>w_verified := True, w_verifiedAt := Some stamp\<rparr>)
                    (winners st)) = map fst (winners st)"
    by (simp add: update_keys)
  show ?thesis
    unfolding find_claim_def
    by (rule find_cong) (auto simp: keys update_conv' assms)
qed

lemma paid_of_verified:
  assumes "map_of (winners st) d = Some w"
  shows "paid_of (st\<lparr>winners := AList.update d (w\<lparr>w_verified := True, w_verifiedAt := Some stamp\<rparr>)
                                  (winners st)\<rparr>) d' = paid_of st d'"
  using assms by (simp add: paid_of_def update_conv')

lemma paid_of_admin_verify:
  "paid_of (snd (admin_verify_claim sha256 ADMIN_KEY st nowIso key day playerId claimSecret)) d
     = paid_of st d"
  by (simp add: admin_verify_claim_def Let_def paid_of_verified split: option.splits)

lemma paid_of_verify_winner:
  "paid_of (snd (verify_winner sha256 st nowIso playerId claimCode claimSecret)) d = paid_of st d"
  by (simp add: verify_winner_def paid_of_verified split: option.splits)

text \<open>
  C3. Take a winner record \<open>w\<close> that the call locates: on the admin path the key is the
  admin key, \<open>w\<close> is the record of the day of the request and the player id is the one of
  \<open>w\<close>; on the self-service path the three fields are present and \<open>w\<close> is the record
  found for the player id and the claim code (a field that is missing or the empty string is
  answered with \<open>MissingParameters\<close> before any record is looked up). Then the call
  succeeds if and only if the hash of the supplied secret is the stored hash. With any other
  secret it fails (\<open>BadSecret\<close>
  on the admin path, \<open>InvalidVerification\<close> on the self-service path) and the state is
  unchanged. On success the record becomes \<open>w\<close> with \<open>verified\<close> true and the time of the
  call, and the same call made again on the new state succeeds again. No call of either
  path, with any input, changes the paid flag of any record.
\<close>

theorem claim_verification:
  "(key = Some ADMIN_KEY \<and> map_of (winners st) (js_String day) = Some w
      \<and> playerId = Some (w_playerId w) \<longrightarrow>
     (let res = admin_verify_claim sha256 ADMIN_KEY st nowIso key day playerId claimSecret
      in ((\<exists>resp. fst res = Inr resp) \<longleftrightarrow> sha256 (js_String claimSecret) = w_claimHash w)
       \<and> (sha256 (js_String claimSecret) \<noteq> w_claimHash w \<longrightarrow> res = (Inl BadSecret, st))
       \<and> (sha256 (js_String claimSecret) = w_claimHash w \<longrightarrow>
            snd res = st\<lparr>winners := AList.update (js_String day)
                          (w\<lparr>w_verified := True, w_verifiedAt := Some nowIso\<rparr>) (winners st)\<rparr>
          \<and> (\<exists>resp. fst (admin_verify_claim sha256 ADMIN_KEY (snd res) nowIso2 key day playerId
                             claimSecret) = Inr resp))))
   \<and> (\<not> falsy playerId \<and> \<not> falsy claimCode \<and> \<not> falsy claimSecret
      \<and> find_claim st playerId claimCode = Some d \<and> d \<noteq> [] \<and> map_of (winners st) d = Some w \<longrightarrow>
     (let res = verify_winner sha256 st nowIso playerId claimCode claimSecret
      in ((\<exists>resp. fst res = Inr resp) \<longleftrightarrow> sha256 (js_String claimSecret) = w_claimHash w)
       \<and> (sha256 (js_String claimSecret) \<noteq> w_claimHash w \<longrightarrow> res = (Inl InvalidVerification, st))
       \<and> (sha256 (js_String claimSecret) = w_claimHash w \<longrightarrow>
            snd res = st\<lparr>winners := AList.update d
                          (w\<lparr>w_verified := True, w_verifiedAt := Some nowIso\<rparr>) (winners st)\<rparr>
          \<and> (\<exists>resp. fst (verify_winner sha256 (snd res) nowIso2 playerId claimCode claimSecret)
                        = Inr resp))))
   \<and> paid_of (snd (admin_verify_claim sha256 ADMIN_KEY st nowIso key day playerId claimSecret)) d'
       = paid_of st d'
   \<and> paid_of (snd (verify_winner sha256 st nowIso playerId claimCode claimSecret)) d'
       = paid_of st d'"
proof (intro conjI impI)
  let ?v = "w\<lparr>w_verified := True, w_verifiedAt := Some nowIso\<rparr>"
  assume a: "key = Some ADMIN_KEY \<and> map_of (winners st) (js_String day) = Some w
      \<and> playerId = Some (w_playerId w)"
  let ?st' = "st\<lparr>winners := AList.update (js_String day) ?v (winners st)\<rparr>"
  have first: "admin_verify_claim sha256 ADMIN_KEY st nowIso key day playerId claimSecret =
     (if sha256 (js_String claimSecret) \<noteq> w_claimHash w then (Inl BadSecret, st)
      else (Inr (JObj [(''ok'', JBool True),
                       (''winner'', JObj (AList.update ''claimHash'' JUndefined (winner_fields ?v)))]),
            ?st'))"
    using a by (intro admin_verify_located) auto
  have again: "\<exists>resp. fst (admin_verify_claim sha256 ADMIN_KEY ?st' nowIso2 key day playerId
                             claimSecret) = Inr resp"
    if "sha256 (js_String claimSecret) = w_claimHash w"
  proof -
    have "map_of (winners ?st') (js_String day) = Some ?v"
      by (simp add: update_conv')
    moreover have "playerId = Some (w_playerId ?v)"
      using a by simp
    ultimately show ?thesis
      using a that by (subst admin_verify_located [where w = ?v]) auto
  qed
  show "let res = admin_verify_claim sha256 ADMIN_KEY st nowIso key day playerId claimSecret
      in ((\<exists>resp. fst res = Inr resp) \<longleftrightarrow> sha256 (js_String claimSecret) = w_claimHash w)
       \<and> (sha256 (js_String claimSecret) \<noteq> w_claimHash w \<longrightarrow> res = (Inl BadSecret, st))
       \<and> (sha256 (js_String claimSecret) = w_claimHash w \<longrightarrow>
            snd res = st\<lparr>winners := AList.update (js_String day)
                          (w\<lparr>w_verified := True, w_verifiedAt := Some nowIso\<rparr>) (winners st)\<rparr>
          \<and> (\<exists>resp. fst (admin_verify_claim sha256 ADMIN_KEY (snd res) nowIso2 key day playerId
                             claimSecret) = Inr resp))"
    unfolding Let_def first using again by simp
next
  let ?v = "w\<lparr>w_verified := True, w_verifiedAt := Some nowIso\<rparr>"
  assume a: "\<not> falsy playerId \<and> \<not> falsy claimCode \<and> \<not> falsy claimSecret
      \<and> find_claim st playerId claimCode = Some d \<and> d \<noteq> [] \<and> map_of (winners st) d = Some w"
  let ?st' = "st\<lparr>winners := AList.update d ?v (winners st)\<rparr>"
  have first: "verify_winner sha256 st nowIso playerId claimCode claimSecret =
     (if sha256 (js_String claimSecret) \<noteq> w_claimHash w then (Inl InvalidVerification, st)
      else (Inr (JObj [(''ok'', JBool True), (''name'', JStr (w_name w)),
                       (''score'', JNum (real_of_int (w_score w))),
                       (''prize'', JNum (w_prize w)), (''day'', JStr (w_day w))]),
            ?st'))"
    using a by (intro verify_winner_located) auto
  have again: "\<exists>resp. fst (verify_winner sha256 ?st' nowIso2 playerId claimCode claimSecret) = Inr resp"
    if "sha256 (js_String claimSecret) = w_claimHash w"
  proof -
    have "find_claim ?st' playerId claimCode = Some d"
      using a by (simp add: find_claim_verified)
    moreover have "map_of (winners ?st') d = Some ?v"
      by (simp add: update_conv')
    ultimately show ?thesis
      using a that by (subst verify_winner_located [where w = ?v and d = d]) auto
  qed
  show "let res = verify_winner sha256 st nowIso playerId claimCode claimSecret
      in ((\<exists>resp. fst res = Inr resp) \<longleftrightarrow> sha256 (js_String claimSecret) = w_claimHash w)
       \<and> (sha256 (js_String claimSecret) \<noteq> w_claimHash w \<longrightarrow> res = (Inl InvalidVerification, st))
       \<and> (sha256 (js_String claimSecret) = w_claimHash w \<longrightarrow>
            snd res = st\<lparr>winners := AList.update d
                          (w\<lparr>w_verified := True, w_verifiedAt := Some nowIso\<rparr>) (winners st)\<rparr>
          \<and> (\<exists>resp. fst (verify_winner sha256 (snd res) nowIso2 playerId claimCode claimSecret)
                        = Inr resp))"
    unfolding Let_def first using again by simp
next
  show "paid_of (snd (admin_verify_claim sha256 ADMIN_KEY st nowIso key day playerId claimSecret)) d'
       = paid_of st d'"
    by (rule paid_of_admin_verify)
  show "paid_of (snd (verify_winner sha256 st nowIso playerId claimCode claimSecret)) d'
       = paid_of st d'"
    by (rule paid_of_verify_winner)
qed

text \<open>
  C3, an instance. Bo's record after the rollover of the example, on both paths: the secret that was issued
  verifies, a guess does not and leaves the state as it is, and the paid flag stays false.
\<close>

theorem claim_verification_witness:
  "map_of (winners day2) (js_String (Some ''2024-05-01'')) = Some bo_wins
   \<and> hash0 (js_String (Some ''5ec2e7'')) = w_claimHash bo_wins
   \<and> hash0 (js_String (Some ''guess'')) \<noteq> w_claimHash bo_wins
   \<and> (\<exists>resp. fst (admin_verify_claim hash0 ''dev-key'' day2 ''2024-05-02T09:00:00.000Z''
         (Some ''dev-key'') (Some ''2024-05-01'') (Some ''bo'') (Some ''5ec2e7'')) = Inr resp)
   \<and> admin_verify_claim hash0 ''dev-key'' day2 ''2024-05-02T09:00:00.000Z''
         (Some ''dev-key'') (Some ''2024-05-01'') (Some ''bo'') (Some ''guess'')
       = (Inl BadSecret, day2)
   \<and> \<not> falsy (Some ''bo'') \<and> \<not> falsy (Some ''win-c0de'') \<and> \<not> falsy (Some ''5ec2e7'')
   \<and> find_claim day2 (Some ''bo'') (Some ''win-c0de'') = Some ''2024-05-01''
   \<and> (\<exists>resp. fst (verify_winner hash0 day2 ''2024-05-02T09:00:00.000Z''
         (Some ''bo'') (Some ''win-c0de'') (Some ''5ec2e7'')) = Inr resp)
   \<and> verify_winner hash0 day2 ''2024-05-02T09:00:00.000Z''
         (Some ''bo'') (Some ''win-c0de'') (Some ''guess'')
       = (Inl InvalidVerification, day2)
   \<and> paid_of (snd (verify_winner hash0 day2 ''2024-05-02T09:00:00.000Z''
         (Some ''bo'') (Some ''win-c0de'') (Some ''5ec2e7''))) ''2024-05-01'' = Some False"
proof -
  have rec: "map_of (winners day2) (js_String (Some ''2024-05-01'')) = Some bo_wins"
    by (simp add: day2_value js_String_def bo_wins_def)
  have rec': "map_of (winners day2) ''2024-05-01'' = Some bo_wins"
    using rec by (simp add: js_String_def)
  have good: "hash0 (js_String (Some ''5ec2e7'')) = w_claimHash bo_wins"
    and bad: "hash0 (js_String (Some ''guess'')) \<noteq> w_claimHash bo_wins"
    by (simp_all add: hash0_def js_String_def bo_wins_def)
  have present: "\<not> falsy (Some ''bo'')" "\<not> falsy (Some ''win-c0de'')"
      "\<not> falsy (Some ''5ec2e7'')" "\<not> falsy (Some ''guess'')"
    by (simp_all add: falsy_def)
  have found: "find_claim day2 (Some ''bo'') (Some ''win-c0de'') = Some ''2024-05-01''"
    by (simp add: find_claim_def day2_value)
  have pid: "Some ''bo'' = Some (w_playerId bo_wins)"
    by (simp add: bo_wins_def)
  have paid0: "paid_of day2 ''2024-05-01'' = Some False"
    by (simp add: paid_of_def rec' bo_wins_def)
  note ok = claim_verification [of "Some ''dev-key''" "''dev-key''" day2 "Some ''2024-05-01''"
      bo_wins "Some ''bo''" hash0 "''2024-05-02T09:00:00.000Z''" "Some ''5ec2e7''" _
      "Some ''win-c0de''" "''2024-05-01''" "''2024-05-01''"]
  note ko = claim_verification [of "Some ''dev-key''" "''dev-key''" day2 "Some ''2024-05-01''"
      bo_wins "Some ''bo''" hash0 "''2024-05-02T09:00:00.000Z''" "Some ''guess''" _
      "Some ''win-c0de''" "''2024-05-01''" "''2024-05-01''"]
  have a1: "\<exists>resp. fst (admin_verify_claim hash0 ''dev-key'' day2 ''2024-05-02T09:00:00.000Z''
         (Some ''dev-key'') (Some ''2024-05-01'') (Some ''bo'') (Some ''5ec2e7'')) = Inr resp"
    using ok [THEN conjunct1] rec pid good unfolding Let_def by blast
  have a2: "admin_verify_claim hash0 ''dev-key'' day2 ''2024-05-02T09:00:00.000Z''
         (Some ''dev-key'') (Some ''2024-05-01'') (Some ''bo'') (Some ''guess'')
       = (Inl BadSecret, day2)"
    using ko [THEN conjunct1] rec pid bad unfolding Let_def by blast
  have s1: "\<exists>resp. fst (verify_winner hash0 day2 ''2024-05-02T09:00:00.000Z''
         (Some ''bo'') (Some ''win-c0de'') (Some ''5ec2e7'')) = Inr resp"
    using ok [THEN conjunct2, THEN conjunct1] present found rec' good unfolding Let_def by blast
  have s2: "verify_winner hash0 day2 ''2024-05-02T09:00:00.000Z''
         (Some ''bo'') (Some ''win-c0de'') (Some ''guess'')
       = (Inl InvalidVerification, day2)"
    using ko [THEN conjunct2, THEN conjunct1] present found rec' bad unfolding Let_def by blast
  have p: "paid_of (snd (verify_winner hash0 day2 ''2024-05-02T09:00:00.000Z''
         (Some ''bo'') (Some ''win-c0de'') (Some ''5ec2e7''))) ''2024-05-01'' = Some False"
    using ok [THEN conjunct2, THEN conjunct2, THEN conjunct2] paid0 by simp
  from rec good bad a1 a2 present found s1 s2 p show ?thesis
    by blast
qed

lemma me_winner_hides: "property ''claimHash'' (me_winner st playerId) = None"
  by (simp add: me_winner_def property_def Let_def split: option.splits)

lemma property_claimHash: "property ''claimHash'' (JObj (winner_fields w)) = Some (JStr (w_claimHash w))"
  by (simp add: property_def winner_fields_def)

lemma yesterday_winner_exposes:
  assumes "winners st \<noteq> []"
  shows "\<exists>w \<in> snd ` set (winners st).
           yesterday_winner st = JObj (winner_fields w)
         \<and> property ''claimHash'' (yesterday_winner st) = Some (JStr (w_claimHash w))"
proof -
  let ?days = "winner_days st"
  from assms have ne: "?days \<noteq> []"
    by (metis winner_days_def length_sort length_map length_0_conv)
  then have "last ?days \<in> set ?days"
    by simp
  then have "last ?days \<in> fst ` set (winners st)"
    by (simp add: winner_days_def)
  then obtain w where w: "map_of (winners st) (last ?days) = Some w"
    by (metis map_of_eq_None_iff not_Some_eq)
  then have "w \<in> snd ` set (winners st)"
    by (metis map_of_SomeD image_eqI snd_conv)
  moreover from ne w have "yesterday_winner st = JObj (winner_fields w)"
    by (simp add: yesterday_winner_def Let_def)
  ultimately show ?thesis
    using property_claimHash by auto
qed

text \<open>
  C2. The state is the one after the rollover of the example: Bo won 2024-05-01 and the
  record holds the claim hash \<open>#5ec2e7\<close>. GET /yesterday-winner and GET /winners send the
  whole record, claim hash included; GET /me/winner sends four fields and no hash.
\<close>

theorem public_winner_endpoints_send_claimHash:
  "yesterday_winner day2 =
     JObj [(''day'', JStr ''2024-05-01''), (''playerId'', JStr ''bo''), (''name'', JStr ''Bo''),
           (''score'', JNum 500), (''prize'', JNum 100), (''paid'', JBool False),
           (''verified'', JBool False), (''claimHash'', JStr ''#5ec2e7''),
           (''claimCode'', JStr ''win-c0de'')]
   \<and> winners_recent day2 NoLimit =
     JArr [JObj [(''day'', JStr ''2024-05-01''), (''playerId'', JStr ''bo''), (''name'', JStr ''Bo''),
           (''score'', JNum 500), (''prize'', JNum 100), (''paid'', JBool False),
           (''verified'', JBool False), (''claimHash'', JStr ''#5ec2e7''),
           (''claimCode'', JStr ''win-c0de'')]]
   \<and> map_option w_claimHash (map_of (winners day2) ''2024-05-01'') = Some ''#5ec2e7''
   \<and> me_winner day2 ''bo'' =
     JObj [(''day'', JStr ''2024-05-01''), (''prize'', JNum 100), (''verified'', JBool False),
           (''paid'', JBool False)]"
  by (simp add: yesterday_winner_def winners_recent_def me_winner_def winner_days_def
      winner_fields_def day2_value Let_def)

subsection \<open>Using a flashbang\<close>

lemma random_index:
  assumes "0 \<le> r" and "r < 1"
  shows "nat \<lfloor>r * real (i + 1)\<rfloor> \<le> i"
proof -
  have "r * real (i + 1) < real (i + 1)"
    using assms by simp
  then have "\<lfloor>r * real (i + 1)\<rfloor> < int (i + 1)"
    by (simp add: floor_less_iff)
  then show ?thesis by simp
qed

lemma shuffle_permutes:
  assumes "\<forall>i. 0 \<le> random i \<and> random i < 1"
  shows "n = 0 \<or> n < length pool \<Longrightarrow>
         set (shuffle random n pool) = set pool \<and> length (shuffle random n pool) = length pool"
proof (induction n arbitrary: pool)
  case 0
  show ?case by simp
next
  case (Suc n)
  let ?i = "Suc n"
  let ?j = "nat \<lfloor>random ?i * real (?i + 1)\<rfloor>"
  let ?pool' = "pool[?i := pool ! ?j, ?j := pool ! ?i]"
  from Suc.prems have i: "?i < length pool" by simp
  have "?j \<le> ?i"
    using assms by (intro random_index) auto
  with i have j: "?j < length pool" by simp
  have "set ?pool' = set pool"
    using i j by simp
  moreover have "length ?pool' = length pool"
    by simp
  moreover have "n = 0 \<or> n < length ?pool'"
    using i by simp
  ultimately show ?case
    using Suc.IH [of ?pool'] by (simp add: Let_def)
qed

lemma sends_to_connected:
  "set targets \<subseteq> fst ` set (sseClients st) \<Longrightarrow>
   concat (map (\<lambda>id. sseSendTo st id ev) targets) = map (\<lambda>id. (id, ev)) targets"
proof (induction targets)
  case Nil
  show ?case by simp
next
  case (Cons t targets)
  then have "map_of (sseClients st) t \<noteq> None"
    by (simp add: map_of_eq_None_iff)
  with Cons show ?case
    by (auto simp: sseSendTo_def)
qed

lemma flashbang_targets:
  assumes "map_of (players st) playerId = Some p"
    and "\<forall>i. 0 \<le> random i \<and> random i < 1"
  defines "pool \<equiv> filter (\<lambda>id. id \<noteq> playerId) (map fst (sseClients st))"
  shows "use_item st now random playerId ''FLASHBANG'' =
           (Inr (), st,
            map (\<lambda>id. (id, Flashbang playerId now))
              (take 50 (shuffle random (length pool - 1) pool)))"
    and "set (shuffle random (length pool - 1) pool) = fst ` set (sseClients st) - {playerId}"
proof -
  have "length pool - 1 = 0 \<or> length pool - 1 < length pool"
    by (cases pool) auto
  from shuffle_permutes [OF assms(2) this]
  have perm: "set (shuffle random (length pool - 1) pool) = set pool" by simp
  have pool: "set pool = fst ` set (sseClients st) - {playerId}"
    by (auto simp: pool_def)
  from perm pool show "set (shuffle random (length pool - 1) pool) = fst ` set (sseClients st) - {playerId}"
    by simp
  have "set (take 50 (shuffle random (length pool - 1) pool)) \<subseteq> fst ` set (sseClients st)"
    using set_take_subset [of 50 "shuffle random (length pool - 1) pool"] perm pool by auto
  from sends_to_connected [OF this]
  show "use_item st now random playerId ''FLASHBANG'' =
           (Inr (), st,
            map (\<lambda>id. (id, Flashbang playerId now))
              (take 50 (shuffle random (length pool - 1) pool)))"
    using assms(1) by (simp add: use_item_def Let_def pool_def)
qed

lemma flashbang_ignores_players:
  assumes "sseClients st2 = sseClients st"
    and "map_of (players st) playerId = Some p" and "map_of (players st2) playerId = Some p2"
  shows "snd (snd (use_item st2 now random playerId ''FLASHBANG''))
       = snd (snd (use_item st now random playerId ''FLASHBANG''))"
  using assms by (simp add: use_item_def Let_def sseSendTo_def)

text \<open>
  C10. \<open>Math.random()\<close> returns a number from 0 up to, and not including, 1.
  For a registered player, whatever the credits and the flags of the player record,
  \<open>use-item\<close> with FLASHBANG answers ok and leaves the whole state as it is: the players,
  the leaderboards, the pending grants and everything else. It pushes at most 50 events, each
  the flashbang event of the sender, each to a connected player who is not the sender. When
  at most 50 other players are connected, every one of them is a recipient. The pushes are
  the same in any other state with the same connections in which the sender is registered,
  so no field of any player record has a part in the choice.
\<close>

theorem flashbang_free:
  assumes "map_of (players st) playerId = Some p"
    and "\<forall>i. 0 \<le> random i \<and> random i < 1"
  shows
  "fst (use_item st now random playerId ''FLASHBANG'') = Inr ()
   \<and> fst (snd (use_item st now random playerId ''FLASHBANG'')) = st
   \<and> length (snd (snd (use_item st now random playerId ''FLASHBANG''))) \<le> 50
   \<and> (\<forall>push \<in> set (snd (snd (use_item st now random playerId ''FLASHBANG''))).
         fst push \<noteq> playerId \<and> fst push \<in> fst ` set (sseClients st)
         \<and> snd push = Flashbang playerId now)
   \<and> (length (filter (\<lambda>id. id \<noteq> playerId) (map fst (sseClients st))) \<le> 50 \<longrightarrow>
        fst ` set (snd (snd (use_item st now random playerId ''FLASHBANG'')))
          = fst ` set (sseClients st) - {playerId})
   \<and> (\<forall>st2 p2. sseClients st2 = sseClients st \<and> map_of (players st2) playerId = Some p2 \<longrightarrow>
        snd (snd (use_item st2 now random playerId ''FLASHBANG''))
          = snd (snd (use_item st now random playerId ''FLASHBANG'')))"
proof -
  define pool where "pool = filter (\<lambda>id. id \<noteq> playerId) (map fst (sseClients st))"
  define mixed where "mixed = shuffle random (length pool - 1) pool"
  note t = flashbang_targets(1) [OF assms, of now, folded pool_def, folded mixed_def]
    flashbang_targets(2) [OF assms, folded pool_def, folded mixed_def]
  have len: "length mixed = length pool"
  proof -
    have "length pool - 1 = 0 \<or> length pool - 1 < length pool"
      by (cases pool) auto
    from shuffle_permutes [OF assms(2) this] show ?thesis
      by (simp add: mixed_def)
  qed
  have sub: "set (take 50 mixed) \<subseteq> fst ` set (sseClients st) - {playerId}"
    using set_take_subset [of 50 mixed] t(2) by simp
  have all: "set (take 50 mixed) = fst ` set (sseClients st) - {playerId}" if "length pool \<le> 50"
    using that len t(2) by simp
  have ign: "snd (snd (use_item st2 now random playerId ''FLASHBANG''))
          = snd (snd (use_item st now random playerId ''FLASHBANG''))"
    if "sseClients st2 = sseClients st \<and> map_of (players st2) playerId = Some p2" for st2 p2
    using that flashbang_ignores_players [OF _ assms(1)] by blast
  let ?out = "map (\<lambda>id. (id, Flashbang playerId now)) (take 50 mixed)"
  have res: "use_item st now random playerId ''FLASHBANG'' = (Inr (), st, ?out)"
    by (rule t(1))
  have c3: "length ?out \<le> 50"
    by simp
  have c4: "\<forall>push \<in> set ?out. fst push \<noteq> playerId \<and> fst push \<in> fst ` set (sseClients st)
         \<and> snd push = Flashbang playerId now"
    using sub by auto
  have img: "fst ` set ?out = set (take 50 mixed)"
    by (simp add: image_image)
  have c5: "length pool \<le> 50 \<longrightarrow> fst ` set ?out = fst ` set (sseClients st) - {playerId}"
    unfolding img using all by blast
  have c6: "\<forall>st2 p2. sseClients st2 = sseClients st \<and> map_of (players st2) playerId = Some p2 \<longrightarrow>
        snd (snd (use_item st2 now random playerId ''FLASHBANG'')) = ?out"
    using ign unfolding res by simp
  from c3 c4 c5 c6 show ?thesis
    unfolding res pool_def [symmetric] by simp
qed

lemma purchase_flashbang:
  assumes "map_of (players st) playerId = Some p" and "10 \<le> p_credits p"
  shows "purchase st playerId ''FLASHBANG'' =
     (Inr (p\<lparr>p_credits := p_credits p - 10\<rparr>),
      st\<lparr>players := AList.update playerId (p\<lparr>p_credits := p_credits p - 10\<rparr>) (players st)\<rparr>)"
  using assms by (simp add: purchase_def ITEM_PRICES_def Let_def)

text \<open>
  C10, an instance. Bo has no credits and flashes Ana; Ana flashes Bo, whose flash shield is on.
\<close>

theorem flashbang_free_witness:
  "map_of (players day1) ''bo'' = Some bo \<and> p_credits bo = 0
   \<and> (\<forall>i. 0 \<le> coin i \<and> coin i < 1)
   \<and> use_item day1 1714557600000 coin ''bo'' ''FLASHBANG''
       = (Inr (), day1, [(''ana'', Flashbang ''bo'' 1714557600000)])
   \<and> map_of (players day1) ''ana'' = Some ana \<and> p_flashShieldActive bo
   \<and> length (filter (\<lambda>id. id \<noteq> ''ana'') (map fst (sseClients day1))) \<le> 50
   \<and> use_item day1 1714557600000 coin ''ana'' ''FLASHBANG''
       = (Inr (), day1, [(''bo'', Flashbang ''ana'' 1714557600000)])"
proof -
  have pb: "map_of (players day1) ''bo'' = Some bo" and pa: "map_of (players day1) ''ana'' = Some ana"
    by (simp_all add: day1_def init_state_def)
  have rnd: "\<forall>i. 0 \<le> coin i \<and> coin i < 1"
    by (simp add: coin_def)
  have flags: "p_credits bo = 0" "p_flashShieldActive bo"
    by (simp_all add: bo_def)
  have few: "length (filter (\<lambda>id. id \<noteq> ''ana'') (map fst (sseClients day1))) \<le> 50"
    by (simp add: day1_def init_state_def)
  have outb: "snd (snd (use_item day1 1714557600000 coin ''bo'' ''FLASHBANG''))
      = [(''ana'', Flashbang ''bo'' 1714557600000)]"
    by (simp add: use_item_def pb Let_def sseSendTo_def) (simp add: day1_def init_state_def)
  have outa: "snd (snd (use_item day1 1714557600000 coin ''ana'' ''FLASHBANG''))
      = [(''bo'', Flashbang ''ana'' 1714557600000)]"
    by (simp add: use_item_def pa Let_def sseSendTo_def) (simp add: day1_def init_state_def)
  from flashbang_free [OF pb rnd, of 1714557600000] outb
  have b: "use_item day1 1714557600000 coin ''bo'' ''FLASHBANG''
       = (Inr (), day1, [(''ana'', Flashbang ''bo'' 1714557600000)])"
    by (simp add: prod_eq_iff)
  from flashbang_free [OF pa rnd, of 1714557600000] outa
  have a: "use_item day1 1714557600000 coin ''ana'' ''FLASHBANG''
       = (Inr (), day1, [(''bo'', Flashbang ''ana'' 1714557600000)])"
    by (simp add: prod_eq_iff)
  from pb pa rnd flags few a b show ?thesis
    by simp
qed

end
